theory Spec2Isabelle
  imports Main
begin

section \<open>History Manager (createUndoRedoManager)\<close>

text \<open>
  The manager of \<^verbatim>\<open>createUndoRedoManager\<close> is a closure over the variable
  \<^verbatim>\<open>state : {history, currentIndex}\<close> and the parameter \<^verbatim>\<open>maxHistorySize\<close>.
  The record below holds the three of them; every method takes the manager and returns
  the updated one. Numbers are integers here (the code's \<^verbatim>\<open>number\<close> without
  fractions and NaN), so a negative step count or limit is an input like any other.
\<close>

record 'a UndoRedoManager =
  history :: "'a list"
  currentIndex :: int
  maxHistorySize :: int

text \<open>
  \<^verbatim>\<open>Array.prototype.slice(start, end)\<close>: a negative bound counts from the end,
  both bounds are clamped to the array, an absent \<^verbatim>\<open>end\<close> is the length.
\<close>

definition js_slice :: "'a list \<Rightarrow> int \<Rightarrow> int option \<Rightarrow> 'a list" where
  "js_slice xs start stop =
     (let len = int (length xs);
          k = (if start < 0 then max (len + start) 0 else min start len);
          fin = (case stop of None \<Rightarrow> len
                 | Some e \<Rightarrow> if e < 0 then max (len + e) 0 else min e len)
      in take (nat (fin - k)) (drop (nat k) xs))"

text \<open>\<^verbatim>\<open>xs[i]\<close> on an array: \<^verbatim>\<open>undefined\<close> (here \<open>None\<close>) out of range.\<close>

definition js_nth :: "'a list \<Rightarrow> int \<Rightarrow> 'a option" where
  "js_nth xs i = (if 0 \<le> i \<and> i < int (length xs) then Some (xs ! nat i) else None)"

definition default_maxHistorySize :: int where
  "default_maxHistorySize = 350"

definition default_steps :: int where
  "default_steps = 1"

text \<open>The parameter \<^verbatim>\<open>maxHistorySize = 350\<close>: the default applies to an absent argument.\<close>

definition createUndoRedoManager :: "'a \<Rightarrow> int option \<Rightarrow> 'a UndoRedoManager" where
  "createUndoRedoManager initialState limit =
     \<lparr> history = [initialState], currentIndex = 0,
       maxHistorySize = (case limit of None \<Rightarrow> default_maxHistorySize | Some n \<Rightarrow> n) \<rparr>"

definition manager_setState :: "'a \<Rightarrow> 'a UndoRedoManager \<Rightarrow> 'a UndoRedoManager" where
  "manager_setState newState m =
     m \<lparr> history :=
           js_slice (js_slice (history m) 0 (Some (currentIndex m + 1)) @ [newState])
                    (- maxHistorySize m) None,
         currentIndex := min (currentIndex m + 1) (maxHistorySize m - 1) \<rparr>"

definition manager_undo :: "int \<Rightarrow> 'a UndoRedoManager \<Rightarrow> 'a UndoRedoManager \<times> 'a option" where
  "manager_undo steps m =
     (let i = max 0 (currentIndex m - steps)
      in (m \<lparr> currentIndex := i \<rparr>, js_nth (history m) i))"

definition manager_redo :: "int \<Rightarrow> 'a UndoRedoManager \<Rightarrow> 'a UndoRedoManager \<times> 'a option" where
  "manager_redo steps m =
     (let i = min (int (length (history m)) - 1) (currentIndex m + steps)
      in (m \<lparr> currentIndex := i \<rparr>, js_nth (history m) i))"

definition manager_canUndo :: "int \<Rightarrow> 'a UndoRedoManager \<Rightarrow> bool" where
  "manager_canUndo steps m \<longleftrightarrow> currentIndex m \<ge> steps"

definition manager_canRedo :: "int \<Rightarrow> 'a UndoRedoManager \<Rightarrow> bool" where
  "manager_canRedo steps m \<longleftrightarrow> currentIndex m + steps < int (length (history m))"

definition getCurrentState :: "'a UndoRedoManager \<Rightarrow> 'a option" where
  "getCurrentState m = js_nth (history m) (currentIndex m)"

text \<open>A call of one of the three mutating methods, and a sequence of calls.\<close>

datatype 'a manager_op = Record 'a | Undo int | Redo int

fun apply_manager_op :: "'a UndoRedoManager \<Rightarrow> 'a manager_op \<Rightarrow> 'a UndoRedoManager" where
  "apply_manager_op m (Record s) = manager_setState s m"
| "apply_manager_op m (Undo steps) = fst (manager_undo steps m)"
| "apply_manager_op m (Redo steps) = fst (manager_redo steps m)"

definition run_manager :: "'a manager_op list \<Rightarrow> 'a UndoRedoManager \<Rightarrow> 'a UndoRedoManager" where
  "run_manager ops m = foldl apply_manager_op m ops"

fun nonneg_steps :: "'a manager_op \<Rightarrow> bool" where
  "nonneg_steps (Record s) = True"
| "nonneg_steps (Undo steps) = (0 \<le> steps)"
| "nonneg_steps (Redo steps) = (0 \<le> steps)"

text \<open>The invariant of the data model: \<open>0 \<le> currentIndex < length history \<le> maxHistorySize\<close>.\<close>

definition history_inv :: "'a UndoRedoManager \<Rightarrow> bool" where
  "history_inv m \<longleftrightarrow>
     0 \<le> currentIndex m \<and> currentIndex m < int (length (history m))
     \<and> int (length (history m)) \<le> maxHistorySize m"

section \<open>Values and the store\<close>

text \<open>
  State values are JavaScript values. A primitive is a value of its own; an object or an
  array is a reference into the store, so that two places holding the same reference see
  each other's writes. An object is its own data properties in insertion order; an array
  is its elements and, beside them, the named properties assigned to it. A hole of a
  sparse array reads \<^verbatim>\<open>undefined\<close> and is stored as such. Numbers are integers.
  Objects and arrays are plain ones: their prototypes are \<^verbatim>\<open>Object.prototype\<close> and
  \<^verbatim>\<open>Array.prototype\<close>, as for the literals and parsed data that form state consists
  of. A built-in object or function, which a read of an inherited member gives, is a
  value known by its name only.
\<close>

type_synonym addr = nat

datatype jsval =
  JUndefined | JNull | JBool bool | JNum int | JStr string | JRef addr | JBuiltin string

type_synonym props = "(string \<times> jsval) list"

datatype cell = ObjCell props | ArrCell "jsval list" props

type_synonym heap = "cell list"

text \<open>
  What a call can throw: the two built-in errors the path functions meet, a failure
  raised by caller-supplied code (an update function, the schema, the submit handler),
  \<open>Dangling\<close> for a reference that is not in the store (no execution produces one) and
  \<open>Unsupported\<close> where this model gives no answer: a conversion it leaves out, a
  member that only later editions of the language have, the inside of a built-in
  object, the replacement of a prototype.
\<close>

datatype error = TypeError | RangeError | Rejected string | Dangling | Unsupported

definition heap_lookup :: "heap \<Rightarrow> addr \<Rightarrow> cell option" where
  "heap_lookup h a = (if a < length h then Some (h ! a) else None)"

definition alloc :: "heap \<Rightarrow> cell \<Rightarrow> heap \<times> jsval" where
  "alloc h c = (h @ [c], JRef (length h))"

fun prop_put :: "(string \<times> 'v) list \<Rightarrow> string \<Rightarrow> 'v \<Rightarrow> (string \<times> 'v) list" where
  "prop_put [] k v = [(k, v)]"
| "prop_put ((k', v') # ps) k v =
     (if k' = k then (k, v) # ps else (k', v') # prop_put ps k v)"

text \<open>Truthiness, as \<^verbatim>\<open>!x\<close> and \<^verbatim>\<open>if (x)\<close> see it.\<close>

fun truthy :: "jsval \<Rightarrow> bool" where
  "truthy JUndefined = False"
| "truthy JNull = False"
| "truthy (JBool b) = b"
| "truthy (JNum n) = (n \<noteq> 0)"
| "truthy (JStr s) = (s \<noteq> [])"
| "truthy (JRef a) = True"
| "truthy (JBuiltin name) = True"

subsection \<open>Keys\<close>

definition is_digit :: "char \<Rightarrow> bool" where
  "is_digit c \<longleftrightarrow> c \<in> set ''0123456789''"

text \<open>The test \<^verbatim>\<open>/^\d+$/.test(key)\<close>.\<close>

definition is_digits :: "string \<Rightarrow> bool" where
  "is_digits k \<longleftrightarrow> k \<noteq> [] \<and> list_all is_digit k"

text \<open>
  \<^verbatim>\<open>parseInt(key, 10)\<close> on a string of digits, as an exact integer (the code's
  number is a double, exact up to \<open>2^53\<close>).
\<close>

definition parseInt :: "string \<Rightarrow> int" where
  "parseInt k = foldl (\<lambda>n c. 10 * n + (of_char c - 48)) 0 k"

text \<open>The string of a number used as a property key (\<^verbatim>\<open>ToString\<close> of an integer).\<close>

function digits_of :: "int \<Rightarrow> string" where
  "digits_of n =
     (if n < 10 then [char_of (48 + n)]
      else digits_of (n div 10) @ [char_of (48 + n mod 10)])"
  by pat_completeness auto
termination
  by (relation "measure nat") auto

definition num_to_key :: "int \<Rightarrow> string" where
  "num_to_key i = (if i < 0 then CHR ''-'' # digits_of (- i) else digits_of i)"

text \<open>
  A key is an array index when it is the canonical decimal string of an integer below
  \<open>2^32 - 1\<close>: digits only, and the string of the number it denotes (so no leading
  zero). Every other key of an array, such as \<^verbatim>\<open>"01"\<close>, names an ordinary property.
\<close>

definition is_array_index :: "string \<Rightarrow> bool" where
  "is_array_index k \<longleftrightarrow>
     is_digits k \<and> num_to_key (parseInt k) = k \<and> parseInt k < 4294967295"

definition elem_get :: "jsval list \<Rightarrow> int \<Rightarrow> jsval" where
  "elem_get es n = (if 0 \<le> n \<and> n < int (length es) then es ! nat n else JUndefined)"

text \<open>Writing an element past the end extends the array; the gap reads \<^verbatim>\<open>undefined\<close>.\<close>

definition elem_put :: "jsval list \<Rightarrow> int \<Rightarrow> jsval \<Rightarrow> jsval list" where
  "elem_put es n v =
     (if n < int (length es) then es[nat n := v]
      else es @ replicate (nat n - length es) JUndefined @ [v])"

subsection \<open>Inherited members\<close>

text \<open>
  A read of a key that is not an own property goes to the prototype: of a plain object
  \<^verbatim>\<open>Object.prototype\<close>, of an array \<^verbatim>\<open>Array.prototype\<close> and then
  \<^verbatim>\<open>Object.prototype\<close>, of a primitive the prototype of its wrapper and then
  \<^verbatim>\<open>Object.prototype\<close>. The members every engine since ECMAScript 2015 has are
  listed first; those that came later are listed apart, and a read of one of them is
  left without answer, since it depends on the engine.
\<close>

datatype kind = OfObject | OfArray | OfString | OfNumber | OfBoolean

fun prototype_name :: "kind \<Rightarrow> string" where
  "prototype_name OfObject = ''Object.prototype''"
| "prototype_name OfArray = ''Array.prototype''"
| "prototype_name OfString = ''String.prototype''"
| "prototype_name OfNumber = ''Number.prototype''"
| "prototype_name OfBoolean = ''Boolean.prototype''"

fun members :: "kind \<Rightarrow> string list" where
  "members OfObject =
     [''constructor'', ''__defineGetter__'', ''__defineSetter__'', ''hasOwnProperty'',
      ''__lookupGetter__'', ''__lookupSetter__'', ''isPrototypeOf'',
      ''propertyIsEnumerable'', ''toString'', ''valueOf'', ''toLocaleString'']"
| "members OfArray =
     [''constructor'', ''concat'', ''copyWithin'', ''fill'', ''find'', ''findIndex'',
      ''lastIndexOf'', ''pop'', ''push'', ''reverse'', ''shift'', ''unshift'', ''slice'',
      ''sort'', ''splice'', ''indexOf'', ''join'', ''keys'', ''entries'', ''forEach'',
      ''filter'', ''map'', ''every'', ''some'', ''reduce'', ''reduceRight'',
      ''toLocaleString'', ''toString'']"
| "members OfString =
     [''constructor'', ''anchor'', ''big'', ''blink'', ''bold'', ''charAt'', ''charCodeAt'',
      ''codePointAt'', ''concat'', ''endsWith'', ''fontcolor'', ''fontsize'', ''fixed'',
      ''includes'', ''indexOf'', ''italics'', ''lastIndexOf'', ''link'', ''localeCompare'',
      ''match'', ''normalize'', ''repeat'', ''replace'', ''search'', ''slice'', ''small'',
      ''split'', ''strike'', ''sub'', ''substr'', ''substring'', ''sup'', ''startsWith'',
      ''toString'', ''trim'', ''trimLeft'', ''trimRight'', ''toLocaleLowerCase'',
      ''toLocaleUpperCase'', ''toLowerCase'', ''toUpperCase'', ''valueOf'']"
| "members OfNumber =
     [''constructor'', ''toExponential'', ''toFixed'', ''toPrecision'', ''toString'',
      ''valueOf'', ''toLocaleString'']"
| "members OfBoolean = [''constructor'', ''toString'', ''valueOf'']"

fun later_members :: "kind \<Rightarrow> string list" where
  "later_members OfArray =
     [''values'', ''includes'', ''flat'', ''flatMap'', ''at'', ''findLast'',
      ''findLastIndex'', ''toReversed'', ''toSorted'', ''toSpliced'', ''with'']"
| "later_members OfString =
     [''padStart'', ''padEnd'', ''trimStart'', ''trimEnd'', ''matchAll'', ''replaceAll'',
      ''at'', ''isWellFormed'', ''toWellFormed'']"
| "later_members k = []"

text \<open>
  \<^verbatim>\<open>__proto__\<close> is an accessor of \<^verbatim>\<open>Object.prototype\<close>: read, it gives the
  prototype of the value it is read on.
\<close>

definition inherited :: "kind \<Rightarrow> string \<Rightarrow> error + jsval" where
  "inherited k key =
     (if key = ''__proto__'' then Inr (JBuiltin (prototype_name k))
      else if key \<in> set (members k) then Inr (JBuiltin (prototype_name k @ ''.'' @ key))
      else if key \<in> set (later_members k) then Inl Unsupported
      else if key \<in> set (members OfObject) then Inr (JBuiltin (''Object.prototype.'' @ key))
      else Inr JUndefined)"

subsection \<open>Property read and assignment\<close>

text \<open>
  The own properties of an array are its elements, its \<^verbatim>\<open>length\<close> and the named
  properties assigned to it; those of a string its \<^verbatim>\<open>length\<close> and its characters.
\<close>

definition arr_prop :: "jsval list \<Rightarrow> props \<Rightarrow> string \<Rightarrow> error + jsval" where
  "arr_prop es ps key =
     (if is_array_index key then Inr (elem_get es (parseInt key))
      else if key = ''length'' then Inr (JNum (int (length es)))
      else (case map_of ps key of Some v \<Rightarrow> Inr v | None \<Rightarrow> inherited OfArray key))"

definition str_prop :: "string \<Rightarrow> string \<Rightarrow> error + jsval" where
  "str_prop s key =
     (if key = ''length'' then Inr (JNum (int (length s)))
      else if is_array_index key \<and> parseInt key < int (length s)
      then Inr (JStr [s ! nat (parseInt key)])
      else inherited OfString key)"

text \<open>
  The expression \<^verbatim>\<open>v[key]\<close>: a \<^verbatim>\<open>TypeError\<close> on \<^verbatim>\<open>null\<close> and
  \<^verbatim>\<open>undefined\<close>; otherwise the own property, else the inherited member, else
  \<^verbatim>\<open>undefined\<close>.
\<close>

fun js_prop :: "heap \<Rightarrow> jsval \<Rightarrow> string \<Rightarrow> error + jsval" where
  "js_prop h JUndefined key = Inl TypeError"
| "js_prop h JNull key = Inl TypeError"
| "js_prop h (JBool b) key = inherited OfBoolean key"
| "js_prop h (JNum n) key = inherited OfNumber key"
| "js_prop h (JStr s) key = str_prop s key"
| "js_prop h (JRef a) key =
     (case heap_lookup h a of
        None \<Rightarrow> Inl Dangling
      | Some (ObjCell ps) \<Rightarrow>
          (case map_of ps key of Some v \<Rightarrow> Inr v | None \<Rightarrow> inherited OfObject key)
      | Some (ArrCell es ps) \<Rightarrow> arr_prop es ps key)"
| "js_prop h (JBuiltin name) key = Inl Unsupported"

text \<open>
  An assignment to \<^verbatim>\<open>__proto__\<close> on a value that has no own property of that name
  runs the setter of the accessor: it does nothing when the value assigned is neither an
  object nor \<^verbatim>\<open>null\<close> and when the receiver is a primitive, and replaces the
  prototype otherwise, which is left out. \<open>True\<close> when the setter does nothing.
\<close>

fun proto_setter_ignores :: "jsval \<Rightarrow> bool" where
  "proto_setter_ignores (JRef a) = False"
| "proto_setter_ignores JNull = False"
| "proto_setter_ignores (JBuiltin name) = False"
| "proto_setter_ignores v = True"

text \<open>
  Assigning \<^verbatim>\<open>length\<close> of an array truncates or extends it; a length that is not
  an integer in \<open>[0, 2^32)\<close> is a \<^verbatim>\<open>RangeError\<close>. The conversion of a value that
  is not a number to a length is left out.
\<close>

definition arr_assign :: "jsval list \<Rightarrow> props \<Rightarrow> string \<Rightarrow> jsval \<Rightarrow> error + cell" where
  "arr_assign es ps key v =
     (if is_array_index key then Inr (ArrCell (elem_put es (parseInt key) v) ps)
      else if key = ''length'' then
        (case v of
           JNum n \<Rightarrow>
             if 0 \<le> n \<and> n < 4294967296
             then Inr (ArrCell (take (nat n) es @ replicate (nat n - length es) JUndefined) ps)
             else Inl RangeError
         | _ \<Rightarrow> Inl Unsupported)
      else if key = ''__proto__'' \<and> map_of ps key = None then
        (if proto_setter_ignores v then Inr (ArrCell es ps) else Inl Unsupported)
      else Inr (ArrCell es (prop_put ps key v)))"

definition obj_assign :: "props \<Rightarrow> string \<Rightarrow> jsval \<Rightarrow> error + cell" where
  "obj_assign ps key v =
     (if key = ''__proto__'' \<and> map_of ps key = None then
        (if proto_setter_ignores v then Inr (ObjCell ps) else Inl Unsupported)
      else Inr (ObjCell (prop_put ps key v)))"

text \<open>
  The statement \<^verbatim>\<open>target[key] = value\<close> in strict mode (the file is a module):
  a \<^verbatim>\<open>TypeError\<close> on \<^verbatim>\<open>null\<close> and \<^verbatim>\<open>undefined\<close>, and on a primitive for
  every key but \<^verbatim>\<open>__proto__\<close>, whose setter returns at once; a write into the cell
  of an object or array. An inherited method is a writable data property, so assigning
  its name creates an own property like any other name.
\<close>

fun js_assign :: "heap \<Rightarrow> jsval \<Rightarrow> string \<Rightarrow> jsval \<Rightarrow> error + heap" where
  "js_assign h (JRef a) key v =
     (case heap_lookup h a of
        None \<Rightarrow> Inl Dangling
      | Some (ObjCell ps) \<Rightarrow>
          (case obj_assign ps key v of
             Inl e \<Rightarrow> Inl e
           | Inr c \<Rightarrow> Inr (h[a := c]))
      | Some (ArrCell es ps) \<Rightarrow>
          (case arr_assign es ps key v of
             Inl e \<Rightarrow> Inl e
           | Inr c \<Rightarrow> Inr (h[a := c])))"
| "js_assign h JUndefined key v = Inl TypeError"
| "js_assign h JNull key v = Inl TypeError"
| "js_assign h (JBuiltin name) key v = Inl Unsupported"
| "js_assign h target key v = (if key = ''__proto__'' then Inr h else Inl TypeError)"

definition isArray :: "heap \<Rightarrow> jsval \<Rightarrow> bool" where
  "isArray h v =
     (case v of
        JRef a \<Rightarrow> (case heap_lookup h a of Some (ArrCell es ps) \<Rightarrow> True | _ \<Rightarrow> False)
      | _ \<Rightarrow> False)"

section \<open>Path Resolver (get, set)\<close>

text \<open>\<^verbatim>\<open>path.split('.')\<close>: the empty path is the one empty segment.\<close>

fun split :: "string \<Rightarrow> string list" where
  "split [] = [[]]"
| "split (c # cs) =
     (if c = CHR ''.'' then [] # split cs
      else (case split cs of [] \<Rightarrow> [[c]] | k # ks \<Rightarrow> (c # k) # ks))"

text \<open>The body of the loop of \<^verbatim>\<open>get\<close>, and the loop.\<close>

definition get_step :: "heap \<Rightarrow> jsval \<Rightarrow> string \<Rightarrow> error + jsval" where
  "get_step h result key =
     (if isArray h result \<and> is_digits key
      then js_prop h result (num_to_key (parseInt key))
      else js_prop h result key)"

fun get_loop :: "heap \<Rightarrow> jsval \<Rightarrow> string list \<Rightarrow> error + jsval" where
  "get_loop h result [] = Inr result"
| "get_loop h result (key # keys) =
     (case get_step h result key of
        Inl e \<Rightarrow> Inl e
      | Inr r \<Rightarrow> get_loop h r keys)"

definition get :: "heap \<Rightarrow> jsval \<Rightarrow> string \<Rightarrow> error + jsval" where
  "get h obj path = get_loop h obj (split path)"

text \<open>\<^verbatim>\<open>keys.reduce((acc, key) => acc[key], obj)\<close>.\<close>

fun reduce_keys :: "heap \<Rightarrow> jsval \<Rightarrow> string list \<Rightarrow> error + jsval" where
  "reduce_keys h acc [] = Inr acc"
| "reduce_keys h acc (key # keys) =
     (case js_prop h acc key of
        Inl e \<Rightarrow> Inl e
      | Inr r \<Rightarrow> reduce_keys h r keys)"

text \<open>
  \<^verbatim>\<open>set\<close> assigns in place on the container it reaches and returns the root it was
  given: the result is the store after the assignment and that same root.
\<close>

definition set_path :: "heap \<Rightarrow> jsval \<Rightarrow> string \<Rightarrow> jsval \<Rightarrow> error + heap \<times> jsval" where
  "set_path h obj path v =
     (if path = [] then Inr (h, obj)
      else
        let keys = split path; lastKey = last keys; keys' = butlast keys
        in case reduce_keys h obj keys' of
             Inl e \<Rightarrow> Inl e
           | Inr target \<Rightarrow>
               (case js_assign h target lastKey v of
                  Inl e \<Rightarrow> Inl e
                | Inr h' \<Rightarrow> Inr (h', obj)))"

text \<open>
  The value a reference stands for: the tree read through the store, to a given depth.
  Two entries are value-equal when their trees are.
\<close>

datatype jstree =
  TPrim jsval | TObj "(string \<times> jstree) list" | TArr "jstree list" "(string \<times> jstree) list" | TCut

fun snapshot :: "nat \<Rightarrow> heap \<Rightarrow> jsval \<Rightarrow> jstree" where
  "snapshot 0 h v = (case v of JRef a \<Rightarrow> TCut | _ \<Rightarrow> TPrim v)"
| "snapshot (Suc n) h v =
     (case v of
        JRef a \<Rightarrow>
          (case heap_lookup h a of
             None \<Rightarrow> TCut
           | Some (ObjCell ps) \<Rightarrow> TObj (map (\<lambda>kv. (fst kv, snapshot n h (snd kv))) ps)
           | Some (ArrCell es ps) \<Rightarrow>
               TArr (map (snapshot n h) es) (map (\<lambda>kv. (fst kv, snapshot n h (snd kv))) ps))
      | _ \<Rightarrow> TPrim v)"

definition value_of :: "heap \<Rightarrow> jsval \<Rightarrow> jstree" where
  "value_of h v = snapshot (Suc (length h)) h v"

subsection \<open>Paths of the round trip\<close>

text \<open>
  The containers \<^verbatim>\<open>set\<close> passes through on the segments before the last one, the
  root first and the container it assigns on last: each must be an object or an array
  in the store. \<open>None\<close> when one of them is missing.
\<close>

fun path_containers :: "heap \<Rightarrow> jsval \<Rightarrow> string list \<Rightarrow> addr list option" where
  "path_containers h (JRef a) [] = (if a < length h then Some [a] else None)"
| "path_containers h (JRef a) (key # keys) =
     (if a < length h then
        (case js_prop h (JRef a) key of
           Inl e \<Rightarrow> None
         | Inr r \<Rightarrow> map_option ((#) a) (path_containers h r keys))
      else None)"
| "path_containers h v keys = None"

text \<open>
  A segment of digits is canonical when it is the decimal string of the number
  \<^verbatim>\<open>parseInt\<close> reads from it (no leading zero) and that number is at most \<open>2^53\<close>,
  so that the number is exact. On an array, \<^verbatim>\<open>get\<close> and \<^verbatim>\<open>set\<close> address the
  same property with such a segment.
\<close>

definition canonical_segment :: "string \<Rightarrow> bool" where
  "canonical_segment key \<longleftrightarrow>
     num_to_key (parseInt key) = key \<and> parseInt key \<le> 9007199254740992"

definition segment_ok :: "heap \<Rightarrow> addr \<times> string \<Rightarrow> bool" where
  "segment_ok h p =
     (if isArray h (JRef (fst p)) \<and> is_digits (snd p) then canonical_segment (snd p) else True)"

text \<open>
  The assignment of the last segment is a write of a data property: it is not the
  setter of \<^verbatim>\<open>__proto__\<close> (which runs when the container has no own property of
  that name), and on the \<^verbatim>\<open>length\<close> of an array the value is a length the array
  can take.
\<close>

definition has_own :: "heap \<Rightarrow> addr \<Rightarrow> string \<Rightarrow> bool" where
  "has_own h a key =
     (case heap_lookup h a of
        None \<Rightarrow> False
      | Some (ObjCell ps) \<Rightarrow> map_of ps key \<noteq> None
      | Some (ArrCell es ps) \<Rightarrow> map_of ps key \<noteq> None)"

definition plain_write :: "heap \<Rightarrow> addr \<Rightarrow> string \<Rightarrow> jsval \<Rightarrow> bool" where
  "plain_write h t key v =
     ((if key = ''__proto__'' then has_own h t key else True)
      \<and> (if isArray h (JRef t) \<and> key = ''length''
         then (case v of JNum n \<Rightarrow> 0 \<le> n \<and> n < 4294967296 | _ \<Rightarrow> False)
         else True))"

text \<open>
  A segment before the last one is overwritten by the assignment when it reads, on the
  container assigned on, the property that is assigned, or an element that the new
  \<^verbatim>\<open>length\<close> of the array cuts off.
\<close>

definition overwritten :: "heap \<Rightarrow> addr \<Rightarrow> string \<Rightarrow> jsval \<Rightarrow> addr \<times> string \<Rightarrow> bool" where
  "overwritten h t lastKey v p =
     (fst p = t \<and>
      (snd p = lastKey \<or>
       (isArray h (JRef t) \<and> lastKey = ''length'' \<and> is_array_index (snd p)
        \<and> (case v of JNum n \<Rightarrow> n \<le> parseInt (snd p) | _ \<Rightarrow> False))))"

text \<open>
  The paths and values on which the round trip is proved: the path is not empty; the
  containers before the last segment exist; every segment of digits applied to an array
  is canonical; the assignment is a write of a data property; no segment before the
  last one is overwritten by it.
\<close>

definition round_trip_path :: "heap \<Rightarrow> jsval \<Rightarrow> string \<Rightarrow> jsval \<Rightarrow> bool" where
  "round_trip_path h root path v =
     (path \<noteq> [] \<and>
      (case path_containers h root (butlast (split path)) of
         None \<Rightarrow> False
       | Some as \<Rightarrow>
           list_all (segment_ok h) (zip as (split path))
           \<and> plain_write h (last as) (last (split path)) v
           \<and> list_all (\<lambda>p. \<not> overwritten h (last as) (last (split path)) v p)
                (zip as (butlast (split path)))))"

text \<open>Two cells are of the same kind: both objects or both arrays.\<close>

definition same_kind :: "cell \<Rightarrow> cell \<Rightarrow> bool" where
  "same_kind c d =
     (case c of ObjCell ps \<Rightarrow> (case d of ObjCell qs \<Rightarrow> True | ArrCell es qs \<Rightarrow> False)
      | ArrCell es ps \<Rightarrow> (case d of ObjCell qs \<Rightarrow> False | ArrCell fs qs \<Rightarrow> True))"

section \<open>Update Resolver (getUpdatedValue, getInitialState)\<close>

text \<open>
  An update is a value or a function of the previous value, synchronous or asynchronous.
  A call of the function is run to its settled result: it may fail, and it may create
  objects, so it takes the store and returns the new one.
\<close>

datatype update = Value jsval | Callback "heap \<Rightarrow> jsval \<Rightarrow> error + heap \<times> jsval"

definition getUpdatedValue :: "heap \<Rightarrow> jsval \<Rightarrow> update \<Rightarrow> error + heap \<times> jsval" where
  "getUpdatedValue h prev u = (case u of Value v \<Rightarrow> Inr (h, v) | Callback f \<Rightarrow> f h prev)"

datatype initializer = InitValue jsval | InitCallback "heap \<Rightarrow> error + heap \<times> jsval"

text \<open>
  An initializer is a value or a producer without argument. The engine file resolves
  one with \<^verbatim>\<open>getInitialValue\<close> of its helper module, which does what
  \<^verbatim>\<open>getInitialState\<close> of \<^verbatim>\<open>index.tsx\<close> does; the latter is the one embedded.
\<close>

definition getInitialState :: "heap \<Rightarrow> initializer \<Rightarrow> error + heap \<times> jsval" where
  "getInitialState h init = (case init of InitValue v \<Rightarrow> Inr (h, v) | InitCallback f \<Rightarrow> f h)"

section \<open>Form Engine (createForm)\<close>

text \<open>
  The schema and the submit handler are the caller's: \<^verbatim>\<open>schema.safeParseAsync\<close> is a
  function from the state to a validation result (or a failure, when a refinement
  rejects), \<^verbatim>\<open>onSubmit\<close> a function of the validated data that returns or fails.
  The validated data is opaque to the engine and is a type parameter here.
\<close>

record FormErrors =
  fieldErrors :: "(string \<times> string list) list"
  formErrors :: "string list"

datatype 'd validation = Success 'd | Failure FormErrors

record 'd CreateFormProps =
  schema :: "heap \<Rightarrow> jsval \<Rightarrow> error + 'd validation"
  initialState_prop :: initializer
  onSubmit :: "'d \<Rightarrow> error + unit"
  undoLimit :: "int option"

text \<open>
  The calls the engine makes that the claims speak of, in the order made: the submit
  handler with its argument, and \<^verbatim>\<open>setFieldValue\<close> with its path. The log is not
  part of the program; nothing reads it.
\<close>

datatype 'd call = OnSubmit 'd | SetFieldValue string

text \<open>
  The signals of \<^verbatim>\<open>createForm\<close> and its variable \<^verbatim>\<open>initialState\<close>, with the
  store they point into. A status object is its keys with their values, in insertion
  order, as \<^verbatim>\<open>{...prev, key: value}\<close> builds it.
\<close>

record 'd engine =
  heap :: heap
  state :: jsval
  initialState :: jsval
  undoRedoManager :: "jsval UndoRedoManager option"
  errors :: FormErrors
  formStatus :: "(string \<times> bool) list"
  fieldStatuses :: "(string \<times> (string \<times> bool) list) list"
  calls :: "'d call list"

definition new_engine :: "heap \<Rightarrow> 'd engine" where
  "new_engine h =
     \<lparr> heap = h, state = JNull, initialState = JNull, undoRedoManager = None,
       errors = \<lparr> fieldErrors = [], formErrors = [] \<rparr>,
       formStatus = [(''initializing'', False), (''submitting'', False),
                     (''validating'', False), (''settingState'', False),
                     (''settingMeta'', False)],
       fieldStatuses = [], calls = [] \<rparr>"

text \<open>\<^verbatim>\<open>setFormStatus(prev => ({ ...prev, [key]: value }))\<close>.\<close>

definition setFormStatus :: "string \<Rightarrow> bool \<Rightarrow> 'd engine \<Rightarrow> 'd engine" where
  "setFormStatus key b e = e \<lparr> formStatus := prop_put (formStatus e) key b \<rparr>"

text \<open>
  \<^verbatim>\<open>revalidate\<close> has no \<^verbatim>\<open>finally\<close>: when the schema rejects, the failure leaves
  with \<^verbatim>\<open>validating\<close> still set.
\<close>

definition revalidate ::
  "'d CreateFormProps \<Rightarrow> 'd engine \<Rightarrow> 'd engine \<times> (error + 'd validation)" where
  "revalidate props e =
     (let e1 = setFormStatus ''validating'' True e
      in case schema props (heap e1) (state e1) of
           Inl err \<Rightarrow> (e1, Inl err)
         | Inr validationResult \<Rightarrow> (setFormStatus ''validating'' False e1, Inr validationResult))"

definition store_errors :: "'d validation \<Rightarrow> 'd engine \<Rightarrow> 'd engine" where
  "store_errors validationResult e =
     (case validationResult of Success d \<Rightarrow> e | Failure errs \<Rightarrow> e \<lparr> errors := errs \<rparr>)"

definition initializeState :: "'d CreateFormProps \<Rightarrow> 'd engine \<Rightarrow> 'd engine \<times> (error + unit)" where
  "initializeState props e =
     (let e1 = setFormStatus ''initializing'' True e;
          (e', r) =
            (case getInitialState (heap e1) (initialState_prop props) of
               Inl err \<Rightarrow> (e1, Inl err)
             | Inr (h, result) \<Rightarrow>
                 let e2 = e1 \<lparr> heap := h, initialState := result, state := result,
                               undoRedoManager :=
                                 Some (createUndoRedoManager result (undoLimit props)) \<rparr>
                 in (case revalidate props e2 of
                       (e3, Inl err) \<Rightarrow> (e3, Inl err)
                     | (e3, Inr validationResult) \<Rightarrow> (store_errors validationResult e3, Inr ())))
      in (setFormStatus ''initializing'' False e', r))"

text \<open>
  \<^verbatim>\<open>createForm\<close> starts \<^verbatim>\<open>initializeState()\<close> and returns; the engine below is the
  one found once the initialization has settled.
\<close>

definition createForm :: "'d CreateFormProps \<Rightarrow> heap \<Rightarrow> 'd engine" where
  "createForm props h = fst (initializeState props (new_engine h))"

text \<open>
  \<^verbatim>\<open>setState\<close>, in the three parts its \<^verbatim>\<open>try\<close>/\<^verbatim>\<open>finally\<close> has: the entry into
  the \<^verbatim>\<open>try\<close> block, which sets the flag; the rest of the block, in which the call
  is suspended on the update and on the validation; the \<^verbatim>\<open>finally\<close> block.
\<close>

definition setState_enter :: "'d engine \<Rightarrow> 'd engine" where
  "setState_enter e = setFormStatus ''isSettingState'' True e"

definition setState_body ::
  "'d CreateFormProps \<Rightarrow> update \<Rightarrow> 'd engine \<Rightarrow> 'd engine \<times> (error + unit)" where
  "setState_body props u e =
     (case getUpdatedValue (heap e) (state e) u of
        Inl err \<Rightarrow> (e, Inl err)
      | Inr (h, next) \<Rightarrow>
          let e2 = e \<lparr> heap := h, state := next,
                       undoRedoManager := map_option (manager_setState next) (undoRedoManager e) \<rparr>
          in (case revalidate props e2 of
                (e3, Inl err) \<Rightarrow> (e3, Inl err)
              | (e3, Inr validationResult) \<Rightarrow> (store_errors validationResult e3, Inr ())))"

definition setState_finally :: "'d engine \<Rightarrow> 'd engine" where
  "setState_finally e = setFormStatus ''isSettingState'' False e"

definition setState ::
  "'d CreateFormProps \<Rightarrow> update \<Rightarrow> 'd engine \<Rightarrow> 'd engine \<times> (error + unit)" where
  "setState props u e =
     (let (e', r) = setState_body props u (setState_enter e)
      in (setState_finally e', r))"

text \<open>What \<^verbatim>\<open>formStatus().settingState\<close> reads.\<close>

definition settingState :: "'d engine \<Rightarrow> bool option" where
  "settingState e = map_of (formStatus e) ''settingState''"

definition submit :: "'d CreateFormProps \<Rightarrow> 'd engine \<Rightarrow> 'd engine \<times> (error + unit)" where
  "submit props e =
     (case revalidate props e of
        (e1, Inl err) \<Rightarrow> (e1, Inl err)
      | (e1, Inr (Failure errs)) \<Rightarrow> (e1, Inr ())
      | (e1, Inr (Success d)) \<Rightarrow>
          let e2 = setFormStatus ''submitting'' True e1;
              e3 = e2 \<lparr> calls := calls e2 @ [OnSubmit d] \<rparr>
          in (setFormStatus ''submitting'' False e3, onSubmit props d))"

text \<open>\<^verbatim>\<open>history[i]!\<close> is \<^verbatim>\<open>undefined\<close> when the index is out of range.\<close>

definition entry_value :: "jsval option \<Rightarrow> jsval" where
  "entry_value x = (case x of None \<Rightarrow> JUndefined | Some v \<Rightarrow> v)"

definition undo :: "'d CreateFormProps \<Rightarrow> int \<Rightarrow> 'd engine \<Rightarrow> 'd engine \<times> (error + unit)" where
  "undo props steps e =
     (case undoRedoManager e of
        None \<Rightarrow> (e, Inr ())
      | Some manager \<Rightarrow>
          let (manager', previousState) = manager_undo steps manager
          in setState props (Value (entry_value previousState))
               (e \<lparr> undoRedoManager := Some manager' \<rparr>))"

definition redo :: "'d CreateFormProps \<Rightarrow> int \<Rightarrow> 'd engine \<Rightarrow> 'd engine \<times> (error + unit)" where
  "redo props steps e =
     (case undoRedoManager e of
        None \<Rightarrow> (e, Inr ())
      | Some manager \<Rightarrow>
          let (manager', nextState) = manager_redo steps manager
          in setState props (Value (entry_value nextState))
               (e \<lparr> undoRedoManager := Some manager' \<rparr>))"

definition canUndo :: "int \<Rightarrow> 'd engine \<Rightarrow> bool" where
  "canUndo steps e =
     (case undoRedoManager e of None \<Rightarrow> False | Some m \<Rightarrow> manager_canUndo steps m)"

definition canRedo :: "int \<Rightarrow> 'd engine \<Rightarrow> bool" where
  "canRedo steps e =
     (case undoRedoManager e of None \<Rightarrow> False | Some m \<Rightarrow> manager_canRedo steps m)"

definition default_fieldStatus :: "(string \<times> bool) list" where
  "default_fieldStatus = [(''isSettingMeta'', False), (''isSettingValue'', False)]"

definition setFieldStatus :: "string \<Rightarrow> string \<Rightarrow> bool \<Rightarrow> 'd engine \<Rightarrow> 'd engine" where
  "setFieldStatus path key b e =
     e \<lparr> fieldStatuses :=
           prop_put (fieldStatuses e) path
             (prop_put (case map_of (fieldStatuses e) path of
                          None \<Rightarrow> default_fieldStatus
                        | Some st \<Rightarrow> st) key b) \<rparr>"

text \<open>
  \<^verbatim>\<open>setFieldValue\<close> calls \<^verbatim>\<open>setState(nextState)\<close> and does not await it: the
  call runs to its first suspension, the \<^verbatim>\<open>finally\<close> block of \<^verbatim>\<open>setFieldValue\<close>
  releases the field status and the promise resolves, and the rest of \<^verbatim>\<open>setState\<close>
  runs afterwards, its failure reaching nobody. The engine returned is the one found
  when that rest has run too.
\<close>

definition setFieldValue ::
  "'d CreateFormProps \<Rightarrow> string \<Rightarrow> update \<Rightarrow> 'd engine \<Rightarrow> 'd engine \<times> (error + unit)" where
  "setFieldValue props path u e =
     (let e0 = e \<lparr> calls := calls e @ [SetFieldValue path] \<rparr>;
          e1 = setFieldStatus path ''isSettingValue'' True e0;
          currentState = state e1
      in case get (heap e1) currentState path of
           Inl err \<Rightarrow> (setFieldStatus path ''isSettingValue'' False e1, Inl err)
         | Inr current \<Rightarrow>
             (case getUpdatedValue (heap e1) current u of
                Inl err \<Rightarrow> (setFieldStatus path ''isSettingValue'' False e1, Inl err)
              | Inr (h, updatedValue) \<Rightarrow>
                  let e2 = e1 \<lparr> heap := h \<rparr>
                  in if truthy currentState then
                       (case set_path (heap e2) currentState path updatedValue of
                          Inl err \<Rightarrow> (setFieldStatus path ''isSettingValue'' False e2, Inl err)
                        | Inr (h', nextState) \<Rightarrow>
                            let e3 = setState_enter (e2 \<lparr> heap := h' \<rparr>);
                                e4 = setFieldStatus path ''isSettingValue'' False e3;
                                (e5, r) = setState_body props (Value nextState) e4
                            in (setState_finally e5, Inr ()))
                     else (setFieldStatus path ''isSettingValue'' False e2, Inr ())))"

section \<open>Field View (useField)\<close>

text \<open>
  The \<^verbatim>\<open>value\<close> of \<^verbatim>\<open>useField(path)\<close> is
  \<^verbatim>\<open>createMemo(() => get(form.state(), path))\<close>. The memo runs \<^verbatim>\<open>get\<close> when the
  view is created and again when the state signal notifies it, and a read gives the
  result of its last run. The signal notifies when it is written a value that is not
  identical (\<^verbatim>\<open>===\<close>) to the one it holds: another reference, or another primitive.
\<close>

definition value_memo :: "'d engine \<Rightarrow> string \<Rightarrow> error + jsval" where
  "value_memo e path = get (heap e) (state e) path"

text \<open>
  The result the memo of a view created on \<open>e\<close> holds on \<open>e'\<close>, when \<open>e'\<close> comes from
  \<open>e\<close> by an operation that writes the state signal at most once and does not write the
  store after that, as \<^verbatim>\<open>setFieldValue\<close> does (its one write is that of the
  \<^verbatim>\<open>setState\<close> it starts): the result of the first run when the signal holds the
  value it held, the result of a new run otherwise.
\<close>

definition value_memo_after :: "'d engine \<Rightarrow> 'd engine \<Rightarrow> string \<Rightarrow> error + jsval" where
  "value_memo_after e e' path =
     (if state e' = state e then value_memo e path else value_memo e' path)"

text \<open>The \<^verbatim>\<open>reset\<close> of \<^verbatim>\<open>useField(path)\<close>.\<close>

definition field_reset ::
  "'d CreateFormProps \<Rightarrow> string \<Rightarrow> 'd engine \<Rightarrow> 'd engine \<times> (error + unit)" where
  "field_reset props path e =
     (case get (heap e) (initialState e) path of
        Inl err \<Rightarrow> (e, Inl err)
      | Inr initialValue \<Rightarrow>
          if \<not> truthy initialValue then (e, Inr ())
          else setFieldValue props path (Value initialValue) e)"

section \<open>Array Field View (useArrayField)\<close>

text \<open>
  \<^verbatim>\<open>Array.prototype.splice(start, deleteCount, ...items)\<close>: the removed elements
  and the array afterwards. A negative start counts from the end; start and count are
  clamped to the array.
\<close>

definition js_splice :: "'a list \<Rightarrow> int \<Rightarrow> int \<Rightarrow> 'a list \<Rightarrow> 'a list \<times> 'a list" where
  "js_splice xs start deleteCount items =
     (let len = int (length xs);
          actualStart = (if start < 0 then max (len + start) 0 else min start len);
          actualDeleteCount = min (max deleteCount 0) (len - actualStart)
      in (take (nat actualDeleteCount) (drop (nat actualStart) xs),
          take (nat actualStart) xs @ items
            @ drop (nat (actualStart + actualDeleteCount)) xs))"

text \<open>
  \<^verbatim>\<open>[...prev]\<close> copies the elements of an array (the characters of a string) and
  fails on a value that cannot be iterated; \<^verbatim>\<open>prev.filter\<close> exists on arrays only.
\<close>

definition spread :: "heap \<Rightarrow> jsval \<Rightarrow> error + jsval list" where
  "spread h prev =
     (case prev of
        JRef a \<Rightarrow>
          (case heap_lookup h a of
             None \<Rightarrow> Inl Dangling
           | Some (ObjCell ps) \<Rightarrow> Inl TypeError
           | Some (ArrCell es ps) \<Rightarrow> Inr es)
      | JStr s \<Rightarrow> Inr (map (\<lambda>c. JStr [c]) s)
      | JBuiltin name \<Rightarrow> Inl Unsupported
      | _ \<Rightarrow> Inl TypeError)"

definition array_elems :: "heap \<Rightarrow> jsval \<Rightarrow> error + jsval list" where
  "array_elems h prev =
     (case prev of
        JRef a \<Rightarrow>
          (case heap_lookup h a of
             None \<Rightarrow> Inl Dangling
           | Some (ObjCell ps) \<Rightarrow> Inl TypeError
           | Some (ArrCell es ps) \<Rightarrow> Inr es)
      | JBuiltin name \<Rightarrow> Inl Unsupported
      | _ \<Rightarrow> Inl TypeError)"

text \<open>
  An index or item argument is an initializer, resolved first. An index resolves to a
  number; another value as an index is left out.
\<close>

definition resolve_index :: "heap \<Rightarrow> initializer \<Rightarrow> error + heap \<times> int" where
  "resolve_index h init =
     (case getInitialState h init of
        Inl e \<Rightarrow> Inl e
      | Inr (h', JNum n) \<Rightarrow> Inr (h', n)
      | Inr (h', other) \<Rightarrow> Inl Unsupported)"

definition push_update :: "initializer \<Rightarrow> update" where
  "push_update item =
     Callback (\<lambda>h prev.
       case spread h prev of
         Inl e \<Rightarrow> Inl e
       | Inr es \<Rightarrow>
           (case getInitialState h item of
              Inl e \<Rightarrow> Inl e
            | Inr (h1, x) \<Rightarrow> Inr (alloc h1 (ArrCell (es @ [x]) []))))"

definition remove_update :: "initializer \<Rightarrow> update" where
  "remove_update index =
     Callback (\<lambda>h prev.
       case resolve_index h index of
         Inl e \<Rightarrow> Inl e
       | Inr (h1, i) \<Rightarrow>
           (case array_elems h1 prev of
              Inl e \<Rightarrow> Inl e
            | Inr es \<Rightarrow>
                Inr (alloc h1
                  (ArrCell (map snd (filter (\<lambda>p. int (fst p) \<noteq> i) (enumerate 0 es))) []))))"

definition move_update :: "initializer \<Rightarrow> initializer \<Rightarrow> update" where
  "move_update from to =
     Callback (\<lambda>h prev.
       case resolve_index h from of
         Inl e \<Rightarrow> Inl e
       | Inr (h1, i) \<Rightarrow>
           (case resolve_index h1 to of
              Inl e \<Rightarrow> Inl e
            | Inr (h2, j) \<Rightarrow>
                (case spread h2 prev of
                   Inl e \<Rightarrow> Inl e
                 | Inr es \<Rightarrow>
                     let (removed, es1) = js_splice es i 1 [];
                         r = (case removed of [] \<Rightarrow> JUndefined | x # rest \<Rightarrow> x);
                         (none, es2) = js_splice es1 j 0 [r]
                     in Inr (alloc h2 (ArrCell es2 [])))))"

definition insert_update :: "initializer \<Rightarrow> initializer \<Rightarrow> update" where
  "insert_update index item =
     Callback (\<lambda>h prev.
       case resolve_index h index of
         Inl e \<Rightarrow> Inl e
       | Inr (h1, i) \<Rightarrow>
           (case getInitialState h1 item of
              Inl e \<Rightarrow> Inl e
            | Inr (h2, x) \<Rightarrow>
                (case spread h2 prev of
                   Inl e \<Rightarrow> Inl e
                 | Inr es \<Rightarrow> Inr (alloc h2 (ArrCell (snd (js_splice es i 0 [x])) [])))))"

definition replace_update :: "initializer \<Rightarrow> initializer \<Rightarrow> update" where
  "replace_update index item =
     Callback (\<lambda>h prev.
       case resolve_index h index of
         Inl e \<Rightarrow> Inl e
       | Inr (h1, i) \<Rightarrow>
           (case getInitialState h1 item of
              Inl e \<Rightarrow> Inl e
            | Inr (h2, x) \<Rightarrow>
                (case spread h2 prev of
                   Inl e \<Rightarrow> Inl e
                 | Inr es \<Rightarrow>
                     (case arr_assign es [] (num_to_key i) x of
                        Inl e \<Rightarrow> Inl e
                      | Inr c \<Rightarrow> Inr (alloc h2 c)))))"

definition swap_update :: "initializer \<Rightarrow> initializer \<Rightarrow> update" where
  "swap_update indexA indexB =
     Callback (\<lambda>h prev.
       case resolve_index h indexA of
         Inl e \<Rightarrow> Inl e
       | Inr (h1, a) \<Rightarrow>
           (case resolve_index h1 indexB of
              Inl e \<Rightarrow> Inl e
            | Inr (h2, b) \<Rightarrow>
                (case spread h2 prev of
                   Inl e \<Rightarrow> Inl e
                 | Inr es \<Rightarrow>
                     (case arr_prop es [] (num_to_key a) of
                        Inl e \<Rightarrow> Inl e
                      | Inr temp \<Rightarrow>
                          (case arr_prop es [] (num_to_key b) of
                             Inl e \<Rightarrow> Inl e
                           | Inr other \<Rightarrow>
                               (case arr_assign es [] (num_to_key a) other of
                                  Inl e \<Rightarrow> Inl e
                                | Inr (ObjCell ps) \<Rightarrow> Inl Dangling
                                | Inr (ArrCell es1 ps1) \<Rightarrow>
                                    (case arr_assign es1 ps1 (num_to_key b) temp of
                                       Inl e \<Rightarrow> Inl e
                                     | Inr c \<Rightarrow> Inr (alloc h2 c))))))))"

text \<open>
  The operations of \<^verbatim>\<open>useArrayField(path)\<close>: each is one \<^verbatim>\<open>setValue\<close>, that is
  one \<^verbatim>\<open>setFieldValue\<close> on the path. \<^verbatim>\<open>empty\<close> passes a new empty array.
\<close>

definition push ::
  "'d CreateFormProps \<Rightarrow> string \<Rightarrow> initializer \<Rightarrow> 'd engine \<Rightarrow> 'd engine \<times> (error + unit)" where
  "push props path item e = setFieldValue props path (push_update item) e"

definition remove ::
  "'d CreateFormProps \<Rightarrow> string \<Rightarrow> initializer \<Rightarrow> 'd engine \<Rightarrow> 'd engine \<times> (error + unit)" where
  "remove props path index e = setFieldValue props path (remove_update index) e"

definition move ::
  "'d CreateFormProps \<Rightarrow> string \<Rightarrow> initializer \<Rightarrow> initializer \<Rightarrow> 'd engine
     \<Rightarrow> 'd engine \<times> (error + unit)" where
  "move props path from to e = setFieldValue props path (move_update from to) e"

definition insert_item ::
  "'d CreateFormProps \<Rightarrow> string \<Rightarrow> initializer \<Rightarrow> initializer \<Rightarrow> 'd engine
     \<Rightarrow> 'd engine \<times> (error + unit)" where
  "insert_item props path index item e = setFieldValue props path (insert_update index item) e"

definition replace ::
  "'d CreateFormProps \<Rightarrow> string \<Rightarrow> initializer \<Rightarrow> initializer \<Rightarrow> 'd engine
     \<Rightarrow> 'd engine \<times> (error + unit)" where
  "replace props path index item e = setFieldValue props path (replace_update index item) e"

definition empty ::
  "'d CreateFormProps \<Rightarrow> string \<Rightarrow> 'd engine \<Rightarrow> 'd engine \<times> (error + unit)" where
  "empty props path e =
     (let (h, arr) = alloc (heap e) (ArrCell [] [])
      in setFieldValue props path (Value arr) (e \<lparr> heap := h \<rparr>))"

definition swap ::
  "'d CreateFormProps \<Rightarrow> string \<Rightarrow> initializer \<Rightarrow> initializer \<Rightarrow> 'd engine
     \<Rightarrow> 'd engine \<times> (error + unit)" where
  "swap props path indexA indexB e = setFieldValue props path (swap_update indexA indexB) e"

text \<open>
  What the state holds at a path: \<^verbatim>\<open>get(form.state(), path)\<close> computed anew and
  read through the store.
\<close>

definition state_value :: "'d engine \<Rightarrow> string \<Rightarrow> error + jstree" where
  "state_value e path =
     (case get (heap e) (state e) path of
        Inl err \<Rightarrow> Inl err
      | Inr v \<Rightarrow> Inr (value_of (heap e) v))"

text \<open>
  What the view gives: \<^verbatim>\<open>value()\<close> of the view created on the engine \<open>e\<close>, read
  on the engine \<open>e'\<close> that one operation of the view has led to.
\<close>

definition field_value :: "'d engine \<Rightarrow> 'd engine \<Rightarrow> string \<Rightarrow> error + jstree" where
  "field_value e e' path =
     (case value_memo_after e e' path of
        Inl err \<Rightarrow> Inl err
      | Inr v \<Rightarrow> Inr (value_of (heap e') v))"

section \<open>Forms used as examples\<close>

text \<open>A form whose schema accepts every state as it is, and one whose schema accepts none.\<close>

definition accepting :: "jsval CreateFormProps" where
  "accepting =
     \<lparr> schema = (\<lambda>h v. Inr (Success v)), initialState_prop = InitValue (JRef 0),
       onSubmit = (\<lambda>d. Inr ()), undoLimit = None \<rparr>"

definition rejecting :: "jsval CreateFormProps" where
  "rejecting =
     \<lparr> schema = (\<lambda>h v. Inr (Failure \<lparr> fieldErrors = [(''name'', [''too short''])],
                                        formErrors = [] \<rparr>)),
       initialState_prop = InitValue (JRef 0),
       onSubmit = (\<lambda>d. Inr ()), undoLimit = None \<rparr>"

text \<open>The form with initial state \<^verbatim>\<open>{ name: "", age: 0 }\<close>.\<close>

definition name_form :: "jsval engine" where
  "name_form = createForm accepting [ObjCell [(''name'', JStr ''''), (''age'', JNum 0)]]"

text \<open>The form with initial state \<^verbatim>\<open>{ items: ["item1", "item2", "item3"] }\<close>.\<close>

definition items_form :: "jsval engine" where
  "items_form =
     createForm accepting
       [ObjCell [(''items'', JRef 1)], ArrCell [JStr ''item1'', JStr ''item2'', JStr ''item3''] []]"

definition strings :: "string list \<Rightarrow> jstree" where
  "strings xs = TArr (map (\<lambda>s. TPrim (JStr s)) xs) []"

section \<open>Properties of the History Manager\<close>

lemma length_js_slice_prefix:
  "0 \<le> i \<Longrightarrow> length (js_slice xs 0 (Some (i + 1))) = min (nat (i + 1)) (length xs)"
  by (auto simp: js_slice_def Let_def min_def)

lemma length_js_slice_suffix:
  "1 \<le> n \<Longrightarrow> length (js_slice xs (- n) None) = min (nat n) (length xs)"
  by (auto simp: js_slice_def Let_def min_def max_def)

lemma maxHistorySize_setState [simp]:
  "maxHistorySize (manager_setState s m) = maxHistorySize m"
  by (simp add: manager_setState_def)

lemma maxHistorySize_undo [simp]: "maxHistorySize (fst (manager_undo k m)) = maxHistorySize m"
  by (simp add: manager_undo_def Let_def)

lemma maxHistorySize_redo [simp]: "maxHistorySize (fst (manager_redo k m)) = maxHistorySize m"
  by (simp add: manager_redo_def Let_def)

lemma length_history_setState:
  assumes "0 \<le> currentIndex m" "1 \<le> maxHistorySize m"
  shows "int (length (history (manager_setState s m)))
         = min (min (currentIndex m + 1) (int (length (history m))) + 1) (maxHistorySize m)"
  using assms
  by (simp add: manager_setState_def length_js_slice_suffix length_js_slice_prefix)

lemma history_inv_setState:
  assumes "history_inv m" "1 \<le> maxHistorySize m"
  shows "history_inv (manager_setState s m)"
proof -
  from assms have i: "0 \<le> currentIndex m" and lt: "currentIndex m < int (length (history m))"
    by (simp_all add: history_inv_def)
  have len: "int (length (history (manager_setState s m)))
             = min (currentIndex m + 2) (maxHistorySize m)"
    using length_history_setState [OF i assms(2), of s] lt by linarith
  have idx: "currentIndex (manager_setState s m) = min (currentIndex m + 1) (maxHistorySize m - 1)"
    by (simp add: manager_setState_def)
  show ?thesis
    unfolding history_inv_def len idx using i assms(2) by simp linarith
qed

lemma history_inv_undo:
  assumes "history_inv m" "0 \<le> k"
  shows "history_inv (fst (manager_undo k m))"
  using assms by (auto simp: history_inv_def manager_undo_def Let_def)

lemma history_inv_redo:
  assumes "history_inv m" "0 \<le> k"
  shows "history_inv (fst (manager_redo k m))"
  using assms by (auto simp: history_inv_def manager_redo_def Let_def)

lemma history_inv_apply:
  assumes "history_inv m" "1 \<le> maxHistorySize m" "nonneg_steps x"
  shows "history_inv (apply_manager_op m x) \<and> maxHistorySize (apply_manager_op m x) = maxHistorySize m"
  using assms
  by (cases x) (simp_all add: history_inv_setState history_inv_undo history_inv_redo)

lemma history_inv_run:
  assumes "history_inv m" "1 \<le> maxHistorySize m" "\<forall>x \<in> set ops. nonneg_steps x"
  shows "history_inv (run_manager ops m) \<and> maxHistorySize (run_manager ops m) = maxHistorySize m"
  using assms unfolding run_manager_def
proof (induction ops arbitrary: m)
  case Nil
  then show ?case by simp
next
  case (Cons x ops)
  from Cons.prems have step: "history_inv (apply_manager_op m x)"
    "maxHistorySize (apply_manager_op m x) = maxHistorySize m"
    using history_inv_apply [of m x] by simp_all
  from Cons.prems(2) step(2) have "1 \<le> maxHistorySize (apply_manager_op m x)" by simp
  with Cons.IH [OF step(1)] Cons.prems(3) step(2) show ?case by simp
qed

lemma history_inv_create:
  "1 \<le> limit \<Longrightarrow> history_inv (createUndoRedoManager s0 (Some limit))"
  by (simp add: history_inv_def createUndoRedoManager_def)

text \<open>
  Claim C4 (as amended). For every limit \<open>\<ge> 1\<close> and every sequence of
  \<^verbatim>\<open>setState\<close>, \<^verbatim>\<open>undo(steps)\<close> and \<^verbatim>\<open>redo(steps)\<close> calls whose step
  counts are not negative, the manager created by \<^verbatim>\<open>createUndoRedoManager(initial, limit)\<close>
  satisfies \<open>0 \<le> currentIndex < length history \<le> limit\<close> after the sequence, and its
  history is not empty.
\<close>

theorem history_bounds:
  assumes "1 \<le> limit" and "\<forall>x \<in> set ops. nonneg_steps x"
  shows "history_inv (run_manager ops (createUndoRedoManager s0 (Some limit)))
         \<and> maxHistorySize (run_manager ops (createUndoRedoManager s0 (Some limit))) = limit
         \<and> history (run_manager ops (createUndoRedoManager s0 (Some limit))) \<noteq> []"
proof -
  let ?m = "createUndoRedoManager s0 (Some limit)"
  have lim: "maxHistorySize ?m = limit" by (simp add: createUndoRedoManager_def)
  have "history_inv (run_manager ops ?m) \<and> maxHistorySize (run_manager ops ?m) = maxHistorySize ?m"
    using history_inv_run [OF history_inv_create [OF assms(1)] _ assms(2)] assms(1) lim
    by simp
  then show ?thesis
    using lim by (auto simp: history_inv_def)
qed

theorem history_bounds_witness:
  "history_inv (run_manager [Record (1::nat), Record 2, Undo 2, Redo 1, Record 3, Undo 5]
                  (createUndoRedoManager 0 (Some 2)))
   \<and> history (run_manager [Record (1::nat), Record 2, Undo 2, Redo 1, Record 3, Undo 5]
                  (createUndoRedoManager 0 (Some 2))) \<noteq> []"
  using history_bounds [of 2 "[Record (1::nat), Record 2, Undo 2, Redo 1, Record 3, Undo 5]" 0]
  by simp

text \<open>
  Claim C4 as stated fails for a negative step count: \<^verbatim>\<open>undo(-1)\<close> on the fresh
  manager computes \<^verbatim>\<open>Math.max(0, 0 - (-1)) = 1\<close>, an index past the single entry.
\<close>

theorem history_bounds_counterexample:
  "\<not> history_inv (run_manager [Undo (- 1)] (createUndoRedoManager (0::nat) (Some 350)))"
  by (simp add: run_manager_def manager_undo_def createUndoRedoManager_def history_inv_def)

text \<open>
  Claim C5 (as amended). On the manager created with \<open>S0\<close> and the default limit or
  a limit of at least 2, after \<^verbatim>\<open>setState(S1)\<close> the call \<^verbatim>\<open>undo()\<close> returns
  \<open>S0\<close> and the following \<^verbatim>\<open>redo()\<close> returns \<open>S1\<close>; the same holds of
  \<^verbatim>\<open>undo(k)\<close> and \<^verbatim>\<open>redo(j)\<close> for all step counts of at least 1. And on any
  manager whose \<open>currentIndex\<close> is 0, \<^verbatim>\<open>undo()\<close>, like \<^verbatim>\<open>undo(steps)\<close> for
  every step count that is not negative, changes nothing and returns the current entry.
\<close>

theorem undo_redo_inverse:
  assumes "case limit of None \<Rightarrow> True | Some n \<Rightarrow> 2 \<le> n" and "1 \<le> k" and "1 \<le> j"
  shows "snd (manager_undo k (manager_setState S1 (createUndoRedoManager S0 limit))) = Some S0
   \<and> snd (manager_redo j
          (fst (manager_undo k (manager_setState S1 (createUndoRedoManager S0 limit)))))
       = Some S1
   \<and> (currentIndex m = 0 \<longrightarrow> 0 \<le> steps \<longrightarrow> manager_undo steps m = (m, getCurrentState m))"
proof -
  let ?m = "createUndoRedoManager S0 limit"
  from assms(1) have lim: "2 \<le> maxHistorySize ?m"
    by (cases limit) (simp_all add: createUndoRedoManager_def default_maxHistorySize_def)
  have hist: "history (manager_setState S1 ?m) = [S0, S1]"
    using lim
    by (simp add: manager_setState_def createUndoRedoManager_def js_slice_def Let_def)
  have idx: "currentIndex (manager_setState S1 ?m) = 1"
    using lim by (simp add: manager_setState_def createUndoRedoManager_def)
  have u: "manager_undo k (manager_setState S1 ?m)
           = ((manager_setState S1 ?m) \<lparr> currentIndex := 0 \<rparr>, Some S0)"
    using assms(2) hist idx by (simp add: manager_undo_def Let_def js_nth_def)
  have r: "snd (manager_redo j ((manager_setState S1 ?m) \<lparr> currentIndex := 0 \<rparr>)) = Some S1"
    using assms(3) hist by (simp add: manager_redo_def Let_def js_nth_def)
  have noop: "currentIndex m = 0 \<longrightarrow> 0 \<le> steps
              \<longrightarrow> manager_undo steps m = (m, getCurrentState m)"
    by (simp add: manager_undo_def getCurrentState_def Let_def)
  from u r noop show ?thesis by simp
qed

theorem undo_redo_inverse_witness:
  "snd (manager_undo default_steps (manager_setState ''S1'' (createUndoRedoManager ''S0'' None)))
     = Some ''S0''
   \<and> snd (manager_redo default_steps
          (fst (manager_undo default_steps
                  (manager_setState ''S1'' (createUndoRedoManager ''S0'' None)))))
       = Some ''S1''
   \<and> snd (manager_undo default_steps
            (manager_setState ''S1'' (createUndoRedoManager ''S0'' (Some 2))))
       = Some ''S0''
   \<and> snd (manager_redo default_steps
          (fst (manager_undo default_steps
                  (manager_setState ''S1'' (createUndoRedoManager ''S0'' (Some 2))))))
       = Some ''S1''
   \<and> currentIndex (createUndoRedoManager ''S0'' None) = 0
   \<and> manager_undo default_steps (createUndoRedoManager ''S0'' None)
       = (createUndoRedoManager ''S0'' None, Some ''S0'')"
  using undo_redo_inverse [of None default_steps default_steps "''S1''" "''S0''"
      "createUndoRedoManager ''S0'' None" default_steps]
    undo_redo_inverse [of "Some 2" default_steps default_steps "''S1''" "''S0''"
      "createUndoRedoManager ''S0'' None" default_steps]
  by (simp add: default_steps_def createUndoRedoManager_def getCurrentState_def js_nth_def)

text \<open>
  Claim C5 as stated fails on a manager created with \<open>S0\<close> and the limit 1, which the
  manager accepts: \<^verbatim>\<open>setState(S1)\<close> keeps the last entry only, so \<^verbatim>\<open>undo()\<close>
  returns \<open>S1\<close>. And \<^verbatim>\<open>undo(-1)\<close> on a manager at index 0 moves the index to 1.
\<close>

theorem undo_redo_inverse_counterexample:
  "history (manager_setState ''S1'' (createUndoRedoManager ''S0'' (Some 1))) = [''S1'']
   \<and> snd (manager_undo default_steps
            (manager_setState ''S1'' (createUndoRedoManager ''S0'' (Some 1))))
       = Some ''S1''
   \<and> currentIndex (fst (manager_undo (- 1) (createUndoRedoManager ''S0'' None))) = 1"
  by (simp add: manager_undo_def manager_setState_def createUndoRedoManager_def
      default_steps_def js_slice_def js_nth_def)

section \<open>Properties of the Path Resolver\<close>

text \<open>
  Claim C2 says that \<^verbatim>\<open>get\<close> never throws and yields \<^verbatim>\<open>undefined\<close> when an
  intermediate value is \<^verbatim>\<open>null\<close> or absent. The code evaluates \<^verbatim>\<open>result[key]\<close>
  on whatever the previous segment gave, which is a \<^verbatim>\<open>TypeError\<close> on \<^verbatim>\<open>null\<close>
  and \<^verbatim>\<open>undefined\<close>: on the state before initialization (\<^verbatim>\<open>null\<close>), on
  \<^verbatim>\<open>{ user: null }\<close> and on \<^verbatim>\<open>{}\<close> with the path \<^verbatim>\<open>user.name\<close>.
\<close>

theorem get_faults_on_null:
  "get [] JNull ''name'' = Inl TypeError
   \<and> get [ObjCell [(''user'', JNull)]] (JRef 0) ''user.name'' = Inl TypeError
   \<and> get [ObjCell []] (JRef 0) ''user.name'' = Inl TypeError"
  by code_simp

lemma split_not_Nil [simp]: "split p \<noteq> []"
  by (induction p) (auto split: list.splits)

lemma get_step_canonical:
  assumes "segment_ok h (a, key)"
  shows "get_step h (JRef a) key = js_prop h (JRef a) key"
proof (cases "isArray h (JRef a) \<and> is_digits key")
  case True
  with assms have eq: "num_to_key (parseInt key) = key"
    by (simp add: segment_ok_def canonical_segment_def)
  have "get_step h (JRef a) key = js_prop h (JRef a) (num_to_key (parseInt key))"
    unfolding get_step_def using True by (simp only: simp_thms if_True)
  then show ?thesis by (simp only: eq)
next
  case False
  then show ?thesis unfolding get_step_def by (simp only: if_False)
qed

lemma map_of_prop_put:
  "map_of (prop_put ps k v) k' = (if k' = k then Some v else map_of ps k')"
  by (induction ps) auto

lemma is_digit_ge: "is_digit c \<Longrightarrow> (48::int) \<le> of_char c"
  by (auto simp: is_digit_def)

lemma parseInt_nonneg_aux:
  "list_all is_digit k \<Longrightarrow> 0 \<le> n
   \<Longrightarrow> 0 \<le> foldl (\<lambda>n c. 10 * n + (of_char c - 48)) (n::int) k"
proof (induction k arbitrary: n)
  case Nil
  then show ?case by simp
next
  case (Cons c k)
  from Cons.prems have "0 \<le> 10 * n + (of_char c - 48)"
    using is_digit_ge [of c] by simp
  with Cons show ?case by simp
qed

lemma parseInt_nonneg: "is_digits k \<Longrightarrow> 0 \<le> parseInt k"
  by (simp add: parseInt_def is_digits_def parseInt_nonneg_aux)

lemma is_array_index_nonneg: "is_array_index k \<Longrightarrow> 0 \<le> parseInt k"
  by (simp add: is_array_index_def parseInt_nonneg)

lemma is_array_index_inj:
  assumes "is_array_index k" "is_array_index k'" "parseInt k = parseInt k'"
  shows "k = k'"
proof -
  have "k = num_to_key (parseInt k)" using assms(1) by (simp add: is_array_index_def)
  also have "\<dots> = num_to_key (parseInt k')" using assms(3) by simp
  also have "\<dots> = k'" using assms(2) by (simp add: is_array_index_def)
  finally show ?thesis .
qed

lemma not_index_length [simp]: "\<not> is_array_index ''length''"
  by (simp add: is_array_index_def is_digits_def is_digit_def)

lemma not_index_proto [simp]: "\<not> is_array_index ''__proto__''"
  by (simp add: is_array_index_def is_digits_def is_digit_def)

lemma elem_get_put: "0 \<le> n \<Longrightarrow> elem_get (elem_put es n v) n = v"
  by (auto simp: elem_get_def elem_put_def nth_append nat_less_iff)

lemma elem_get_put_other:
  assumes "0 \<le> n" "0 \<le> m" "m \<noteq> n"
  shows "elem_get (elem_put es n v) m = elem_get es m"
  using assms
  by (auto simp: elem_get_def elem_put_def nth_append nth_list_update nat_less_iff
      nth_Cons' split: if_splits)

lemma elem_get_resize:
  assumes "0 \<le> m" "m < n"
  shows "elem_get (take (nat n) es @ replicate (nat n - length es) JUndefined) m
         = elem_get es m"
  using assms by (auto simp: elem_get_def nth_append nat_less_iff)

text \<open>A successful assignment rewrites one cell, keeps its kind, and is read back.\<close>

lemma arr_assign_kind:
  "arr_assign es ps key v = Inr c \<Longrightarrow> same_kind c (ArrCell es ps)"
  by (auto simp: arr_assign_def same_kind_def split: if_splits jsval.splits)

lemma obj_assign_kind:
  "obj_assign ps key v = Inr c \<Longrightarrow> same_kind c (ObjCell ps)"
  by (auto simp: obj_assign_def same_kind_def split: if_splits)

lemma js_assign_cell:
  assumes "js_assign h (JRef a) key v = Inr h'"
  shows "a < length h \<and> (\<exists>c. h' = h[a := c] \<and> same_kind c (h ! a))"
  using assms
  by (auto simp: heap_lookup_def split: if_splits cell.splits sum.splits
      dest: arr_assign_kind obj_assign_kind)

lemma js_assign_read:
  assumes "js_assign h (JRef a) key v = Inr h'" and "plain_write h a key v"
  shows "js_prop h' (JRef a) key = Inr v"
proof -
  from assms(1) have a: "a < length h"
    by (auto simp: heap_lookup_def split: if_splits)
  show ?thesis
  proof (cases "h ! a")
    case (ObjCell ps)
    with assms a show ?thesis
      by (auto simp: heap_lookup_def obj_assign_def plain_write_def has_own_def
          map_of_prop_put split: if_splits)
  next
    case (ArrCell es ps)
    with assms a show ?thesis
      by (auto simp: heap_lookup_def arr_assign_def arr_prop_def plain_write_def has_own_def
          isArray_def map_of_prop_put elem_get_put is_array_index_nonneg
          split: if_splits jsval.splits)
  qed
qed

lemma js_assign_defined:
  assumes "a < length h" and "plain_write h a key v"
  shows "\<exists>h'. js_assign h (JRef a) key v = Inr h'"
proof (cases "h ! a")
  case (ObjCell ps)
  with assms show ?thesis
    by (auto simp: heap_lookup_def obj_assign_def plain_write_def has_own_def)
next
  case (ArrCell es ps)
  with assms show ?thesis
    by (auto simp: heap_lookup_def arr_assign_def plain_write_def has_own_def isArray_def
        split: jsval.splits)
qed

lemma isArray_update:
  "a < length h \<Longrightarrow> same_kind c (h ! a) \<Longrightarrow> isArray (h[a := c]) v = isArray h v"
  by (cases v) (auto simp: isArray_def heap_lookup_def same_kind_def nth_list_update
      split: cell.splits)

lemma js_prop_update_other:
  "b \<noteq> a \<Longrightarrow> js_prop (h[a := c]) (JRef b) key = js_prop h (JRef b) key"
  by (simp add: heap_lookup_def)

text \<open>
  The assignment leaves every read that gives a container as it was, but a read it
  overwrites.
\<close>

lemma js_assign_frame:
  assumes "js_assign h (JRef t) key v = Inr h'"
    and "\<not> overwritten h t key v (a, k)"
    and "js_prop h (JRef a) k = Inr (JRef b)"
  shows "js_prop h' (JRef a) k = Inr (JRef b)"
proof (cases "a = t")
  case False
  from js_assign_cell [OF assms(1)] obtain c where c: "h' = h[t := c]" by blast
  have "js_prop (h[t := c]) (JRef a) k = js_prop h (JRef a) k"
    using False by (rule js_prop_update_other)
  with assms(3) c show ?thesis by (simp only:)
next
  case True
  from assms(1) have t: "t < length h"
    by (auto simp: heap_lookup_def split: if_splits)
  from True assms(2) have ne: "k \<noteq> key" by (simp add: overwritten_def)
  show ?thesis
  proof (cases "h ! t")
    case (ObjCell ps)
    with assms(1,3) t True ne show ?thesis
      by (auto simp: heap_lookup_def obj_assign_def map_of_prop_put split: if_splits)
  next
    case (ArrCell es ps)
    have arr: "isArray h (JRef t)"
      using t ArrCell by (simp add: isArray_def heap_lookup_def)
    show ?thesis
    proof (cases "is_array_index key")
      case idx: True
      then have h': "h' = h[t := ArrCell (elem_put es (parseInt key) v) ps]"
        using assms(1) t ArrCell by (simp add: heap_lookup_def arr_assign_def)
      show ?thesis
      proof (cases "is_array_index k")
        case True
        with idx ne have "parseInt k \<noteq> parseInt key"
          using is_array_index_inj by blast
        with True idx assms(3) \<open>a = t\<close> t ArrCell h' show ?thesis
          by (simp add: heap_lookup_def arr_prop_def elem_get_put_other is_array_index_nonneg)
      next
        case False
        with assms(3) \<open>a = t\<close> t ArrCell h' show ?thesis
          by (auto simp: heap_lookup_def arr_prop_def split: if_splits)
      qed
    next
      case nidx: False
      show ?thesis
      proof (cases "key = ''length''")
        case True
        with assms(1) t ArrCell nidx obtain n where
          v: "v = JNum n" and n: "0 \<le> n" "n < 4294967296"
          and h': "h' = h[t := ArrCell (take (nat n) es @ replicate (nat n - length es) JUndefined) ps]"
          by (auto simp: heap_lookup_def arr_assign_def split: jsval.splits if_splits)
        show ?thesis
        proof (cases "is_array_index k")
          case kidx: True
          with assms(2) \<open>a = t\<close> arr True v have "parseInt k < n"
            by (simp add: overwritten_def)
          with kidx assms(3) \<open>a = t\<close> t ArrCell h' show ?thesis
            by (simp add: heap_lookup_def arr_prop_def elem_get_resize is_array_index_nonneg)
        next
          case False
          with assms(3) \<open>a = t\<close> t ArrCell h' ne True show ?thesis
            by (auto simp: heap_lookup_def arr_prop_def split: if_splits)
        qed
      next
        case False
        with assms(1,3) \<open>a = t\<close> t ArrCell nidx ne show ?thesis
          by (auto simp: heap_lookup_def arr_assign_def arr_prop_def map_of_prop_put
              split: if_splits)
      qed
    qed
  qed
qed

lemma zip_snoc_left: "length xs = length ys \<Longrightarrow> zip (xs @ [x]) ys = zip xs ys"
  by (induction xs ys rule: list_induct2) auto

lemma segment_ok_cong:
  "(\<And>v. isArray h' v = isArray h v) \<Longrightarrow> segment_ok h' p = segment_ok h p"
  by (simp add: segment_ok_def)

lemma path_containers_ref:
  "path_containers h r keys = Some bs \<Longrightarrow> \<exists>b. r = JRef b"
  by (cases r) auto

lemma path_containers_last:
  "path_containers h root keys = Some as \<Longrightarrow> as \<noteq> [] \<and> last as < length h
     \<and> length as = Suc (length keys)"
proof (induction keys arbitrary: root as)
  case Nil
  then show ?case by (cases root) (auto split: if_splits)
next
  case (Cons key keys)
  then show ?case
    by (cases root) (fastforce split: if_splits sum.splits)+
qed

lemma path_containers_walk:
  assumes "path_containers h root keys = Some as"
    and "list_all (segment_ok h) (zip as keys)"
    and "\<And>a k b. (a, k) \<in> set (zip as keys) \<Longrightarrow> js_prop h (JRef a) k = Inr (JRef b)
           \<Longrightarrow> js_prop h' (JRef a) k = Inr (JRef b)"
    and "\<And>v. isArray h' v = isArray h v"
  shows "reduce_keys h root keys = Inr (JRef (last as))
         \<and> get_loop h' root (keys @ rest) = get_loop h' (JRef (last as)) rest"
  using assms(1,2,3)
proof (induction keys arbitrary: root as)
  case Nil
  then show ?case by (cases root) (auto split: if_splits)
next
  case (Cons key keys)
  from Cons.prems(1) obtain a where root: "root = JRef a"
    by (cases root) auto
  from Cons.prems(1) root obtain r bs where
    r: "js_prop h (JRef a) key = Inr r"
    and bs: "path_containers h r keys = Some bs" and as: "as = a # bs"
    by (auto split: if_splits sum.splits)
  from path_containers_ref [OF bs] obtain b where b: "r = JRef b" by blast
  from path_containers_last [OF bs] have bs_ne: "bs \<noteq> []" by simp
  from Cons.prems(2) as have ok: "segment_ok h (a, key)"
    and oks: "list_all (segment_ok h) (zip bs keys)"
    by auto
  have IH: "reduce_keys h r keys = Inr (JRef (last bs))
            \<and> get_loop h' r (keys @ rest) = get_loop h' (JRef (last bs)) rest"
  proof (rule Cons.IH [OF bs oks])
    fix a' k b'
    assume "(a', k) \<in> set (zip bs keys)" "js_prop h (JRef a') k = Inr (JRef b')"
    then show "js_prop h' (JRef a') k = Inr (JRef b')"
      using Cons.prems(3) [of a' k b'] as by simp
  qed
  have "get_step h' (JRef a) key = js_prop h' (JRef a) key"
    using ok get_step_canonical [of h' a key] segment_ok_cong [of h' h, OF assms(4)] by simp
  also have "\<dots> = Inr r"
    using Cons.prems(3) [of a key b] r b as by simp
  finally show ?case
    using IH r root as bs_ne by simp
qed

text \<open>
  Claim C6 (as amended). For every store, root, value \<open>v\<close> and non-empty path such that
  the containers before the last segment exist, every segment of digits applied to an
  array is canonical, the assignment of the last segment is a write of a data property
  (not the setter of \<^verbatim>\<open>__proto__\<close>, and on the \<^verbatim>\<open>length\<close> of an array a length
  the array can take) and no segment before the last one is overwritten by it,
  \<^verbatim>\<open>set(root, path, v)\<close> returns the root and \<^verbatim>\<open>get\<close> of the result at the path
  is \<open>v\<close>.
\<close>

theorem set_get_round_trip:
  assumes "round_trip_path h root path v"
  shows "\<exists>h'. set_path h root path v = Inr (h', root) \<and> get h' root path = Inr v"
proof -
  let ?keys = "butlast (split path)" and ?lastKey = "last (split path)"
  from assms obtain as where
    ne: "path \<noteq> []" and as: "path_containers h root ?keys = Some as"
    and oks: "list_all (segment_ok h) (zip as (split path))"
    and pw: "plain_write h (last as) ?lastKey v"
    and nov: "list_all (\<lambda>p. \<not> overwritten h (last as) ?lastKey v p) (zip as ?keys)"
    by (auto simp: round_trip_path_def split: option.splits)
  let ?t = "last as"
  have split: "split path = ?keys @ [?lastKey]" by simp
  from path_containers_last [OF as] have as_ne: "as \<noteq> []" and t: "?t < length h"
    and las: "length as = Suc (length ?keys)" by simp_all
  have as_split: "as = butlast as @ [?t]" using as_ne by simp
  have lb: "length (butlast as) = length ?keys" using las by simp
  have zip_keys: "zip as ?keys = zip (butlast as) ?keys"
    using zip_snoc_left [OF lb, of ?t] as_split by simp
  have zip_all: "zip as (split path) = zip (butlast as) ?keys @ [(?t, ?lastKey)]"
  proof -
    have "zip (butlast as @ [?t]) (?keys @ [?lastKey])
          = zip (butlast as) ?keys @ zip [?t] [?lastKey]"
      using lb by (intro zip_append) simp
    then show ?thesis using as_ne by simp
  qed
  from oks zip_all zip_keys have oks': "list_all (segment_ok h) (zip as ?keys)"
    and ok_last: "segment_ok h (?t, ?lastKey)" by simp_all
  from js_assign_defined [OF t pw] obtain h' where
    h': "js_assign h (JRef ?t) ?lastKey v = Inr h'" by blast
  from js_assign_cell [OF h'] obtain c where c: "h' = h[?t := c]" "same_kind c (h ! ?t)"
    by blast
  have arr: "\<And>x. isArray h' x = isArray h x"
    using isArray_update [OF t c(2)] c(1) by simp
  have frame: "\<And>a k b. (a, k) \<in> set (zip as ?keys) \<Longrightarrow> js_prop h (JRef a) k = Inr (JRef b)
                 \<Longrightarrow> js_prop h' (JRef a) k = Inr (JRef b)"
  proof -
    fix a k b
    assume "(a, k) \<in> set (zip as ?keys)" and r: "js_prop h (JRef a) k = Inr (JRef b)"
    with nov have "\<not> overwritten h ?t ?lastKey v (a, k)"
      by (auto simp: list_all_iff)
    from js_assign_frame [OF h' this r] show "js_prop h' (JRef a) k = Inr (JRef b)" .
  qed
  have walk: "reduce_keys h root ?keys = Inr (JRef ?t)
        \<and> get_loop h' root (?keys @ [?lastKey]) = get_loop h' (JRef ?t) [?lastKey]"
    using path_containers_walk [OF as oks' frame arr] by blast
  have set: "set_path h root path v = Inr (h', root)"
    using ne walk h' by (simp add: set_path_def Let_def)
  have "get_step h' (JRef ?t) ?lastKey = js_prop h' (JRef ?t) ?lastKey"
    using ok_last get_step_canonical [of h' ?t ?lastKey] segment_ok_cong [of h' h, OF arr]
    by simp
  also have "\<dots> = Inr v" using js_assign_read [OF h' pw] .
  finally have "get_loop h' (JRef ?t) [?lastKey] = Inr v" by simp
  with walk have "get h' root path = Inr v"
    unfolding get_def by (subst split) simp
  with set show ?thesis by blast
qed

theorem set_get_round_trip_witness:
  "round_trip_path [ObjCell [(''a'', JRef 1)], ArrCell [JStr ''x'', JStr ''y''] []] (JRef 0)
     ''a.1'' (JStr ''z'')
   \<and> (\<exists>h'. set_path [ObjCell [(''a'', JRef 1)], ArrCell [JStr ''x'', JStr ''y''] []]
                (JRef 0) ''a.1'' (JStr ''z'') = Inr (h', JRef 0)
             \<and> get h' (JRef 0) ''a.1'' = Inr (JStr ''z''))
   \<and> round_trip_path [ObjCell [(''a'', JRef 1)], ArrCell [JStr ''x'', JStr ''y''] []] (JRef 0)
       ''a.length'' (JNum 1)
   \<and> (\<exists>h'. set_path [ObjCell [(''a'', JRef 1)], ArrCell [JStr ''x'', JStr ''y''] []]
                (JRef 0) ''a.length'' (JNum 1) = Inr (h', JRef 0)
             \<and> get h' (JRef 0) ''a.length'' = Inr (JNum 1))
   \<and> round_trip_path [ObjCell [(''a'', JRef 0)]] (JRef 0) ''a.b'' (JNum 5)
   \<and> (\<exists>h'. set_path [ObjCell [(''a'', JRef 0)]] (JRef 0) ''a.b'' (JNum 5) = Inr (h', JRef 0)
             \<and> get h' (JRef 0) ''a.b'' = Inr (JNum 5))"
proof -
  have elem: "round_trip_path [ObjCell [(''a'', JRef 1)], ArrCell [JStr ''x'', JStr ''y''] []]
                (JRef 0) ''a.1'' (JStr ''z'')"
    by code_simp
  have len: "round_trip_path [ObjCell [(''a'', JRef 1)], ArrCell [JStr ''x'', JStr ''y''] []]
               (JRef 0) ''a.length'' (JNum 1)"
    by code_simp
  have cyc: "round_trip_path [ObjCell [(''a'', JRef 0)]] (JRef 0) ''a.b'' (JNum 5)"
    by code_simp
  show ?thesis
    using elem len cyc set_get_round_trip [OF elem] set_get_round_trip [OF len]
      set_get_round_trip [OF cyc]
    by simp
qed

text \<open>
  Claim C6 as stated fails on paths whose intermediate containers all exist.
  On \<^verbatim>\<open>{ a: ["x", "y"] }\<close> with the path \<^verbatim>\<open>a.01\<close>, \<^verbatim>\<open>set\<close> assigns the
  property \<^verbatim>\<open>"01"\<close> of the array and \<^verbatim>\<open>get\<close> reads element 1, which is still
  \<^verbatim>\<open>"y"\<close>. With the path \<^verbatim>\<open>a.length\<close> and the value \<open>-1\<close>, \<^verbatim>\<open>set\<close> throws a
  \<^verbatim>\<open>RangeError\<close>. On the object \<open>r\<close> with \<^verbatim>\<open>r.a = r\<close> and the path \<^verbatim>\<open>a.a\<close>,
  \<^verbatim>\<open>set\<close> overwrites the link the path goes through and \<^verbatim>\<open>get\<close> reads
  \<^verbatim>\<open>undefined\<close>. On \<^verbatim>\<open>{}\<close> with the path \<^verbatim>\<open>__proto__\<close> and the value 5, the
  assignment runs the inherited setter, which ignores a number, and \<^verbatim>\<open>get\<close> reads
  \<^verbatim>\<open>Object.prototype\<close>. On the array \<open>r\<close> with \<^verbatim>\<open>r[0] = r\<close>, the path
  \<^verbatim>\<open>0.length\<close> and the value 0, the assignment cuts off the element the path goes
  through and \<^verbatim>\<open>get\<close> throws.
\<close>

theorem set_get_round_trip_counterexample:
  "set_path [ObjCell [(''a'', JRef 1)], ArrCell [JStr ''x'', JStr ''y''] []] (JRef 0) ''a.01''
     (JStr ''z'')
     = Inr ([ObjCell [(''a'', JRef 1)], ArrCell [JStr ''x'', JStr ''y''] [(''01'', JStr ''z'')]],
            JRef 0)
   \<and> get [ObjCell [(''a'', JRef 1)], ArrCell [JStr ''x'', JStr ''y''] [(''01'', JStr ''z'')]]
         (JRef 0) ''a.01''
       = Inr (JStr ''y'')
   \<and> set_path [ObjCell [(''a'', JRef 1)], ArrCell [JStr ''x'', JStr ''y''] []] (JRef 0)
         ''a.length'' (JNum (- 1))
       = Inl RangeError
   \<and> set_path [ObjCell [(''a'', JRef 0)]] (JRef 0) ''a.a'' (JNum 5)
       = Inr ([ObjCell [(''a'', JNum 5)]], JRef 0)
   \<and> get [ObjCell [(''a'', JNum 5)]] (JRef 0) ''a.a'' = Inr JUndefined
   \<and> set_path [ObjCell []] (JRef 0) ''__proto__'' (JNum 5) = Inr ([ObjCell []], JRef 0)
   \<and> get [ObjCell []] (JRef 0) ''__proto__'' = Inr (JBuiltin ''Object.prototype'')
   \<and> set_path [ArrCell [JRef 0] []] (JRef 0) ''0.length'' (JNum 0)
       = Inr ([ArrCell [] []], JRef 0)
   \<and> get [ArrCell [] []] (JRef 0) ''0.length'' = Inl TypeError"
  by code_simp

section \<open>Properties of the Form Engine\<close>

text \<open>
  Claim C1 says that a \<^verbatim>\<open>set\<close>, applied as \<^verbatim>\<open>setFieldValue\<close> applies it, leaves
  every recorded history entry value-equal to what it was. On the form initialized with
  \<^verbatim>\<open>{ name: "", age: 0 }\<close> the history holds that object; \<^verbatim>\<open>setFieldValue("name",
  "Alice")\<close> passes the same object to \<^verbatim>\<open>set\<close>, which assigns on it, so the entry
  recorded at initialization reads \<^verbatim>\<open>{ name: "Alice", age: 0 }\<close> afterwards, and the
  entry recorded by the call is the same object again.
\<close>

theorem setFieldValue_rewrites_history:
  "map_option history (undoRedoManager name_form) = Some [JRef 0]
   \<and> value_of (heap name_form) (JRef 0)
       = TObj [(''name'', TPrim (JStr '''')), (''age'', TPrim (JNum 0))]
   \<and> set_path (heap name_form) (state name_form) ''name'' (JStr ''Alice'')
       = Inr ([ObjCell [(''name'', JStr ''Alice''), (''age'', JNum 0)]], JRef 0)
   \<and> map_option history
         (undoRedoManager (fst (setFieldValue accepting ''name'' (Value (JStr ''Alice'')) name_form)))
       = Some [JRef 0, JRef 0]
   \<and> value_of (heap (fst (setFieldValue accepting ''name'' (Value (JStr ''Alice'')) name_form)))
         (JRef 0)
       = TObj [(''name'', TPrim (JStr ''Alice'')), (''age'', TPrim (JNum 0))]"
  by code_simp

text \<open>
  Claim C3 says that \<^verbatim>\<open>setState\<close> holds \<^verbatim>\<open>formStatus().settingState\<close> true
  while it is in flight. The code writes the key \<^verbatim>\<open>isSettingState\<close>, which is not a
  field of \<^verbatim>\<open>FormStatus\<close>: \<^verbatim>\<open>settingState\<close> stays false at the entry, in the
  body and after the \<^verbatim>\<open>finally\<close> block, on the form initialized with
  \<^verbatim>\<open>{ name: "", age: 0 }\<close> as on any other.
\<close>

theorem setState_never_sets_settingState:
  "settingState name_form = Some False
   \<and> settingState (setState_enter name_form) = Some False
   \<and> map_of (formStatus (setState_enter name_form)) ''isSettingState'' = Some True
   \<and> settingState (fst (setState_body accepting (Value (JStr ''next'')) (setState_enter name_form)))
       = Some False
   \<and> settingState (fst (setState accepting (Value (JStr ''next'')) name_form)) = Some False"
  by code_simp

subsection \<open>What the parts of the engine leave alone\<close>

lemma undoRedoManager_setFormStatus [simp]:
  "undoRedoManager (setFormStatus k b e) = undoRedoManager e"
  by (simp add: setFormStatus_def)

lemma calls_setFormStatus [simp]: "calls (setFormStatus k b e) = calls e"
  by (simp add: setFormStatus_def)

lemma heap_setFormStatus [simp]: "heap (setFormStatus k b e) = heap e"
  by (simp add: setFormStatus_def)

lemma state_setFormStatus [simp]: "state (setFormStatus k b e) = state e"
  by (simp add: setFormStatus_def)

lemma settingState_setFormStatus:
  "k \<noteq> ''settingState'' \<Longrightarrow> settingState (setFormStatus k b e) = settingState e"
  by (auto simp: settingState_def setFormStatus_def map_of_prop_put)

lemma undoRedoManager_revalidate [simp]:
  "undoRedoManager (fst (revalidate props e)) = undoRedoManager e"
  by (simp add: revalidate_def Let_def split: sum.splits)

lemma calls_revalidate [simp]: "calls (fst (revalidate props e)) = calls e"
  by (simp add: revalidate_def Let_def split: sum.splits)

lemma settingState_revalidate [simp]:
  "settingState (fst (revalidate props e)) = settingState e"
  by (simp add: revalidate_def Let_def settingState_setFormStatus split: sum.splits)

lemma snd_revalidate [simp]: "snd (revalidate props e) = schema props (heap e) (state e)"
  by (simp add: revalidate_def Let_def split: sum.splits)

lemma undoRedoManager_store_errors [simp]:
  "undoRedoManager (store_errors r e) = undoRedoManager e"
  by (simp add: store_errors_def split: validation.splits)

lemma calls_store_errors [simp]: "calls (store_errors r e) = calls e"
  by (simp add: store_errors_def split: validation.splits)

lemma settingState_store_errors [simp]:
  "settingState (store_errors r e) = settingState e"
  by (simp add: store_errors_def settingState_def split: validation.splits)

lemma revalidate_manager:
  "revalidate props e = (e', r) \<Longrightarrow> undoRedoManager e' = undoRedoManager e"
  using undoRedoManager_revalidate [of props e] by simp

lemma revalidate_calls:
  "revalidate props e = (e', r) \<Longrightarrow> calls e' = calls e"
  using calls_revalidate [of props e] by simp

lemma revalidate_settingState:
  "revalidate props e = (e', r) \<Longrightarrow> settingState e' = settingState e"
  using settingState_revalidate [of props e] by simp

lemma undoRedoManager_setState_body_Value:
  "undoRedoManager (fst (setState_body props (Value v) e))
   = map_option (manager_setState v) (undoRedoManager e)"
  by (auto simp: setState_body_def getUpdatedValue_def Let_def
      split: prod.splits sum.splits dest!: revalidate_manager)

lemma undoRedoManager_setState_Value:
  "undoRedoManager (fst (setState props (Value v) e))
   = map_option (manager_setState v) (undoRedoManager e)"
  using undoRedoManager_setState_body_Value [of props v "setState_enter e"]
  by (simp add: setState_def setState_enter_def setState_finally_def case_prod_beta)

lemma calls_setState_body [simp]: "calls (fst (setState_body props u e)) = calls e"
  by (auto simp: setState_body_def Let_def split: prod.splits sum.splits dest!: revalidate_calls)

text \<open>
  No path through \<^verbatim>\<open>setState\<close> writes \<^verbatim>\<open>settingState\<close>, whatever the engine, the
  update and the schema: the flag reads at every point what it read before the call.
\<close>

lemma settingState_setState_enter: "settingState (setState_enter e) = settingState e"
  by (simp add: setState_enter_def settingState_setFormStatus)

lemma settingState_written_cells [simp]:
  "settingState (e \<lparr> heap := h, state := next, undoRedoManager := m \<rparr>) = settingState e"
  by (simp add: settingState_def)

lemma settingState_setState_body:
  "settingState (fst (setState_body props u e)) = settingState e"
  by (auto simp: setState_body_def Let_def
      split: prod.splits sum.splits dest!: revalidate_settingState)

lemma settingState_setState: "settingState (fst (setState props u e)) = settingState e"
  by (simp add: setState_def setState_finally_def case_prod_beta settingState_setFormStatus
      settingState_setState_body settingState_setState_enter)

lemma calls_setFieldStatus [simp]: "calls (setFieldStatus path k b e) = calls e"
  by (simp add: setFieldStatus_def)

text \<open>Every call of \<^verbatim>\<open>setFieldValue\<close> is in the log, whatever its outcome.\<close>

lemma calls_setFieldValue:
  "calls (fst (setFieldValue props path u e)) = calls e @ [SetFieldValue path]"
  by (simp add: setFieldValue_def Let_def setState_enter_def setState_finally_def
      case_prod_beta split: sum.splits)

subsection \<open>Redo after an engine-level undo\<close>

lemma not_canRedo_setState:
  assumes "0 \<le> currentIndex m" "1 \<le> maxHistorySize m" "1 \<le> k"
  shows "\<not> manager_canRedo k (manager_setState s m)"
proof -
  have "int (length (history (manager_setState s m)))
        \<le> min (currentIndex m + 2) (maxHistorySize m)"
    using length_history_setState [OF assms(1,2), of s] by linarith
  moreover have "currentIndex (manager_setState s m)
        = min (currentIndex m + 1) (maxHistorySize m - 1)"
    by (simp add: manager_setState_def)
  ultimately show ?thesis
    using assms(3) by (simp add: manager_canRedo_def) linarith
qed

text \<open>
  With a limit of at least 1 the conclusion holds after every engine-level
  \<^verbatim>\<open>undo(steps)\<close>, whatever the index and the step count.
\<close>

lemma not_canRedo_after_undo:
  assumes "undoRedoManager e = Some m" and "1 \<le> maxHistorySize m" and "1 \<le> k"
  shows "\<not> canRedo k (fst (undo props steps e))"
proof -
  obtain m1 prev where u: "manager_undo steps m = (m1, prev)"
    by (cases "manager_undo steps m")
  have m1: "0 \<le> currentIndex m1" "maxHistorySize m1 = maxHistorySize m"
    using u by (auto simp: manager_undo_def Let_def)
  have "undoRedoManager (fst (undo props steps e))
        = Some (manager_setState (entry_value prev) m1)"
    using assms(1) u by (simp add: undo_def undoRedoManager_setState_Value)
  then show ?thesis
    using not_canRedo_setState [OF m1(1) _ assms(3), of "entry_value prev"] m1(2) assms(2)
    by (simp add: canRedo_def)
qed

text \<open>
  Claim C9. On an engine that has its manager, when the history index after the
  engine-level \<^verbatim>\<open>undo()\<close> is at least 1, \<^verbatim>\<open>canRedo()\<close> is false after it: the
  \<^verbatim>\<open>setState\<close> of the undo records the snapshot it retrieved as the last entry.
\<close>

theorem canRedo_false_after_undo:
  assumes "undoRedoManager e = Some m"
    and "undoRedoManager (fst (undo props default_steps e)) = Some m'"
    and "1 \<le> currentIndex m'"
  shows "\<not> canRedo default_steps (fst (undo props default_steps e))"
proof -
  obtain m1 prev where u: "manager_undo default_steps m = (m1, prev)"
    by (cases "manager_undo default_steps m")
  have i1: "0 \<le> currentIndex m1"
    using u by (auto simp: manager_undo_def Let_def)
  have m': "m' = manager_setState (entry_value prev) m1"
    using assms(1,2) u by (simp add: undo_def undoRedoManager_setState_Value)
  from assms(3) have "2 \<le> maxHistorySize m1"
    unfolding m' by (simp add: manager_setState_def)
  then have "\<not> manager_canRedo default_steps m'"
    unfolding m' using not_canRedo_setState [OF i1, of default_steps]
    by (simp add: default_steps_def)
  then show ?thesis
    using assms(2) by (simp add: canRedo_def)
qed

theorem canRedo_false_after_undo_witness:
  "undoRedoManager (fst (setState accepting (Value (JStr ''next'')) name_form))
     = Some \<lparr> history = [JRef 0, JStr ''next''], currentIndex = 1, maxHistorySize = 350 \<rparr>
   \<and> undoRedoManager
       (fst (undo accepting default_steps
               (fst (setState accepting (Value (JStr ''next'')) name_form))))
     = Some \<lparr> history = [JRef 0, JRef 0], currentIndex = 1, maxHistorySize = 350 \<rparr>
   \<and> \<not> canRedo default_steps
         (fst (undo accepting default_steps
                 (fst (setState accepting (Value (JStr ''next'')) name_form))))"
proof -
  let ?e = "fst (setState accepting (Value (JStr ''next'')) name_form)"
  have a: "undoRedoManager ?e
     = Some \<lparr> history = [JRef 0, JStr ''next''], currentIndex = 1, maxHistorySize = 350 \<rparr>"
    by code_simp
  have b: "undoRedoManager (fst (undo accepting default_steps ?e))
     = Some \<lparr> history = [JRef 0, JRef 0], currentIndex = 1, maxHistorySize = 350 \<rparr>"
    by code_simp
  show ?thesis
    using a b canRedo_false_after_undo [OF a b] by simp
qed

subsection \<open>Submit\<close>

text \<open>
  Claim C7. \<^verbatim>\<open>submit()\<close> invokes the submit handler exactly when the validation of
  the current state succeeds, once and with the data of the validation result, and the
  outcome of \<^verbatim>\<open>submit\<close> is then the handler's; when the validation fails,
  \<^verbatim>\<open>submit\<close> returns without an error and the handler is not invoked.
\<close>

theorem submit_handler_iff_valid:
  "calls (fst (submit props e))
     = calls e @ (case schema props (heap e) (state e) of
                    Inr (Success d) \<Rightarrow> [OnSubmit d] | _ \<Rightarrow> [])
   \<and> (\<forall>d. schema props (heap e) (state e) = Inr (Success d)
          \<longrightarrow> snd (submit props e) = onSubmit props d)
   \<and> (\<forall>errs. schema props (heap e) (state e) = Inr (Failure errs)
          \<longrightarrow> snd (submit props e) = Inr ())"
  by (cases "revalidate props e")
     (auto simp: submit_def revalidate_def Let_def split: sum.splits validation.splits)

theorem submit_handler_iff_valid_witness:
  "schema rejecting (heap name_form) (state name_form)
     = Inr (Failure \<lparr> fieldErrors = [(''name'', [''too short''])], formErrors = [] \<rparr>)
   \<and> calls (fst (submit rejecting name_form)) = []
   \<and> snd (submit rejecting name_form) = Inr ()
   \<and> schema accepting (heap name_form) (state name_form) = Inr (Success (JRef 0))
   \<and> calls (fst (submit accepting name_form)) = [OnSubmit (JRef 0)]
   \<and> snd (submit accepting name_form) = Inr ()"
proof -
  have r: "schema rejecting (heap name_form) (state name_form)
     = Inr (Failure \<lparr> fieldErrors = [(''name'', [''too short''])], formErrors = [] \<rparr>)"
    by (simp add: rejecting_def)
  have a: "schema accepting (heap name_form) (state name_form) = Inr (Success (JRef 0))"
    by code_simp
  have c: "calls name_form = []" by code_simp
  have o: "onSubmit accepting (JRef 0) = Inr ()" by (simp add: accepting_def)
  show ?thesis
    using submit_handler_iff_valid [of rejecting name_form]
      submit_handler_iff_valid [of accepting name_form] r a c o
    by simp
qed

subsection \<open>Field reset\<close>

text \<open>
  Claim C10. When the value at the path in the initial state is falsy, the \<^verbatim>\<open>reset\<close>
  of \<^verbatim>\<open>useField(path)\<close> returns without calling \<^verbatim>\<open>setFieldValue\<close> and leaves the
  engine as it was.
\<close>

theorem field_reset_falsy:
  assumes "get (heap e) (initialState e) path = Inr v" and "\<not> truthy v"
  shows "field_reset props path e = (e, Inr ())
         \<and> SetFieldValue path \<notin> set (drop (length (calls e)) (calls (fst (field_reset props path e))))"
  using assms by (simp add: field_reset_def)

theorem field_reset_falsy_witness:
  "get (heap name_form) (initialState name_form) ''age'' = Inr (JNum 0)
   \<and> \<not> truthy (JNum 0)
   \<and> field_reset accepting ''age'' name_form = (name_form, Inr ())
   \<and> get (heap name_form) (initialState name_form) ''name'' = Inr (JStr '''')
   \<and> field_reset accepting ''name'' name_form = (name_form, Inr ())"
proof -
  have a: "get (heap name_form) (initialState name_form) ''age'' = Inr (JNum 0)"
    by code_simp
  have n: "get (heap name_form) (initialState name_form) ''name'' = Inr (JStr '''')"
    by code_simp
  show ?thesis
    using a n field_reset_falsy [OF a, of accepting] field_reset_falsy [OF n, of accepting]
    by simp
qed

section \<open>Properties of the Array Field View\<close>

text \<open>
  What the state holds at \<^verbatim>\<open>items\<close> after each operation on the form whose field
  \<^verbatim>\<open>items\<close> is \<^verbatim>\<open>["item1","item2","item3"]\<close>: the arrays the operations build.
\<close>

lemma array_operations_on_state:
  "state_value items_form ''items'' = Inr (strings [''item1'', ''item2'', ''item3''])
   \<and> state_value (fst (push accepting ''items'' (InitValue (JStr ''x'')) items_form)) ''items''
       = Inr (strings [''item1'', ''item2'', ''item3'', ''x''])
   \<and> state_value (fst (remove accepting ''items'' (InitValue (JNum 1)) items_form)) ''items''
       = Inr (strings [''item1'', ''item3''])
   \<and> state_value (fst (move accepting ''items'' (InitValue (JNum 0)) (InitValue (JNum 2))
                          items_form)) ''items''
       = Inr (strings [''item2'', ''item3'', ''item1''])
   \<and> state_value (fst (swap accepting ''items'' (InitValue (JNum 0)) (InitValue (JNum 2))
                          items_form)) ''items''
       = Inr (strings [''item3'', ''item2'', ''item1''])
   \<and> state_value (fst (insert_item accepting ''items'' (InitValue (JNum 1))
                          (InitValue (JStr ''y'')) items_form)) ''items''
       = Inr (strings [''item1'', ''y'', ''item2'', ''item3''])
   \<and> state_value (fst (replace accepting ''items'' (InitValue (JNum 0))
                          (InitValue (JStr ''z'')) items_form)) ''items''
       = Inr (strings [''z'', ''item2'', ''item3''])
   \<and> state_value (fst (empty accepting ''items'' items_form)) ''items'' = Inr (strings [])"
  by code_simp

text \<open>
  \<^verbatim>\<open>setFieldValue\<close> never changes what the state signal holds: it writes back the
  root it read. So no memo over the state signal runs again after it.
\<close>

lemma state_revalidate [simp]: "state (fst (revalidate props e)) = state e"
  by (simp add: revalidate_def Let_def split: sum.splits)

lemma state_store_errors [simp]: "state (store_errors r e) = state e"
  by (simp add: store_errors_def split: validation.splits)

lemma revalidate_state: "revalidate props e = (e', r) \<Longrightarrow> state e' = state e"
  using state_revalidate [of props e] by simp

lemma state_setState_body_Value: "state (fst (setState_body props (Value v) e)) = v"
  by (auto simp: setState_body_def getUpdatedValue_def Let_def
      split: prod.splits sum.splits dest!: revalidate_state)

lemma state_setFieldStatus [simp]: "state (setFieldStatus path k b e) = state e"
  by (simp add: setFieldStatus_def)

lemma set_path_root: "set_path h obj path v = Inr (h', r) \<Longrightarrow> r = obj"
  by (auto simp: set_path_def Let_def split: if_splits sum.splits)

lemma state_setFieldValue: "state (fst (setFieldValue props path u e)) = state e"
  by (auto simp: setFieldValue_def Let_def setState_enter_def setState_finally_def
      case_prod_beta state_setState_body_Value split: sum.splits dest: set_path_root)

lemma value_memo_after_setFieldValue:
  "value_memo_after e (fst (setFieldValue props path u e)) p = value_memo e p"
  by (simp add: value_memo_after_def state_setFieldValue)

text \<open>
  Claim C8 says that each array-field operation applied to the field value
  \<^verbatim>\<open>["item1","item2","item3"]\<close> yields the array it builds. The operation builds that
  array and \<^verbatim>\<open>set\<close> stores it in the state object in place, but the state signal is
  written the same object, so the memo behind \<^verbatim>\<open>value()\<close> does not run again: after
  each of the seven operations the view still gives \<^verbatim>\<open>["item1","item2","item3"]\<close>.
\<close>

theorem array_field_value_stale:
  "field_value items_form items_form ''items'' = Inr (strings [''item1'', ''item2'', ''item3''])
   \<and> state (fst (push accepting ''items'' (InitValue (JStr ''x'')) items_form))
       = state items_form
   \<and> state_value (fst (push accepting ''items'' (InitValue (JStr ''x'')) items_form)) ''items''
       = Inr (strings [''item1'', ''item2'', ''item3'', ''x''])
   \<and> field_value items_form
         (fst (push accepting ''items'' (InitValue (JStr ''x'')) items_form)) ''items''
       = Inr (strings [''item1'', ''item2'', ''item3''])
   \<and> field_value items_form
         (fst (remove accepting ''items'' (InitValue (JNum 1)) items_form)) ''items''
       = Inr (strings [''item1'', ''item2'', ''item3''])
   \<and> field_value items_form
         (fst (move accepting ''items'' (InitValue (JNum 0)) (InitValue (JNum 2)) items_form))
         ''items''
       = Inr (strings [''item1'', ''item2'', ''item3''])
   \<and> field_value items_form
         (fst (swap accepting ''items'' (InitValue (JNum 0)) (InitValue (JNum 2)) items_form))
         ''items''
       = Inr (strings [''item1'', ''item2'', ''item3''])
   \<and> field_value items_form
         (fst (insert_item accepting ''items'' (InitValue (JNum 1)) (InitValue (JStr ''y''))
                 items_form)) ''items''
       = Inr (strings [''item1'', ''item2'', ''item3''])
   \<and> field_value items_form
         (fst (replace accepting ''items'' (InitValue (JNum 0)) (InitValue (JStr ''z''))
                 items_form)) ''items''
       = Inr (strings [''item1'', ''item2'', ''item3''])
   \<and> field_value items_form (fst (empty accepting ''items'' items_form)) ''items''
       = Inr (strings [''item1'', ''item2'', ''item3''])"
  by code_simp

end
